theory Spec2Isabelle
  imports Main "HOL-Library.Multiset"
begin

section \<open>Values, readings and the network\<close>

text \<open>
  Python values that the integration inspects: \<open>None\<close>, booleans, integers and strings.
  Credentials are typed \<open>str | None\<close> in the source but are assigned from decoded JSON,
  so they are kept as dynamic values and tested with Python's truthiness.
\<close>

datatype pyval = PNone | PBool bool | PInt int | PStr string

fun truthy :: "pyval \<Rightarrow> bool" where
  "truthy PNone = False"
| "truthy (PBool b) = b"
| "truthy (PInt i) = (i \<noteq> 0)"
| "truthy (PStr s) = (s \<noteq> [])"

text \<open>A dict with string keys, in insertion order; \<open>d.get(k)\<close> is \<open>map_of d k\<close>.\<close>

type_synonym pydict = "(string \<times> pyval) list"

definition get_default :: "pydict \<Rightarrow> string \<Rightarrow> pyval \<Rightarrow> pyval" where
  "get_default d k dflt = (case map_of d k of None \<Rightarrow> dflt | Some v \<Rightarrow> v)"

text \<open>
  A \<open>datetime\<close>, kept as the two parts of its ISO-8601 rendering: \<open>isoformat()\<close> joins
  them with a \<open>T\<close>, \<open>date().isoformat()\<close> is the first part.
\<close>

record datetime =
  date_iso :: string
  time_iso :: string

definition isoformat :: "datetime \<Rightarrow> string" where
  "isoformat dt = date_iso dt @ ''T'' @ time_iso dt"

text \<open>The reading built by \<open>_handle_state_change\<close> (coordinator.py, lines 160-169).\<close>

record reading =
  entity_id :: string
  state :: string
  attributes :: pydict
  timestamp :: string

text \<open>
  The exception classes of api.py: \<open>InvalidPairingCode\<close>, \<open>CannotConnect\<close> and
  \<open>AuthenticationError\<close> derive from \<open>GreenEnergyApiError\<close>. The others are
  built-ins that the client does not catch: \<open>json.JSONDecodeError\<close> from
  \<open>response.json()\<close> on a body that is not JSON, \<open>AttributeError\<close> from \<open>.get\<close>
  on a JSON value that is not an object, \<open>TypeError\<close> from indexing such a value with a
  string, \<open>KeyError\<close> from \<open>data["api_token"]\<close> on a missing key. Messages are
  not kept.
\<close>

datatype exn =
  GreenEnergyApiError | InvalidPairingCode | CannotConnect | AuthenticationError
| JSONDecodeError | AttributeError | TypeError | KeyError

text \<open>What \<open>except GreenEnergyApiError\<close> catches.\<close>

fun is_api_error :: "exn \<Rightarrow> bool" where
  "is_api_error GreenEnergyApiError = True"
| "is_api_error InvalidPairingCode = True"
| "is_api_error CannotConnect = True"
| "is_api_error AuthenticationError = True"
| "is_api_error _ = False"

text \<open>
  The HTTP session is the environment. A request either times out inside
  \<open>asyncio.timeout(API_TIMEOUT)\<close>, fails with an \<open>aiohttp.ClientError\<close>, or yields a
  response with a status and a body. A body is a JSON object (\<open>Json\<close>); or JSON of
  another kind, or empty, which \<open>response.json()\<close> decodes to a value that is not a
  dict (\<open>NotObject\<close>); or not JSON at all, on which \<open>response.json()\<close> raises
  \<open>json.JSONDecodeError\<close> (\<open>Malformed\<close>); or one that \<open>response.json()\<close> refuses
  with an \<open>aiohttp.ClientError\<close>, as for a content type that is not JSON
  (\<open>Unreadable\<close>). Of a request only what the client puts into it is kept.
\<close>

datatype body = Json pydict | NotObject | Malformed | Unreadable

text \<open>A decoded JSON value: an object, or anything else.\<close>

datatype jsonval = JObject pydict | JOther

datatype net_outcome = TimeoutError | ClientError | Response int body

datatype header_value = Literal string | Bearer pyval

datatype payload =
  PairPayload string
| ReadingsPayload pyval "reading list"
| StatusParams pyval
| UnpairPayload pyval

record request =
  http_method :: string
  url :: string
  req_headers :: "(string \<times> header_value) list"
  req_payload :: payload

section \<open>The API client (api.py)\<close>

record client =
  api_url :: string
  token :: pyval
  instance_id :: pyval

definition rstrip_slash :: "string \<Rightarrow> string" where
  "rstrip_slash s = rev (dropWhile (\<lambda>ch. ch = CHR ''/'') (rev s))"

text \<open>\<open>GreenEnergyApiClient.__init__\<close>.\<close>

definition new_client :: "string \<Rightarrow> pyval \<Rightarrow> pyval \<Rightarrow> client" where
  "new_client u tok iid = \<lparr>api_url = rstrip_slash u, token = tok, instance_id = iid\<rparr>"

text \<open>\<open>_headers\<close>: the bearer token is added only when the token is truthy.\<close>

definition headers :: "client \<Rightarrow> (string \<times> header_value) list" where
  "headers c =
     [(''Content-Type'', Literal ''application/json''), (''Accept'', Literal ''application/json'')]
     @ (if truthy (token c) then [(''Authorization'', Bearer (token c))] else [])"

text \<open>The guard \<open>not self._token or not self._instance_id\<close>, negated.\<close>

definition authenticated :: "client \<Rightarrow> bool" where
  "authenticated c = (truthy (token c) \<and> truthy (instance_id c))"

definition pair_request :: "client \<Rightarrow> string \<Rightarrow> request" where
  "pair_request c pairing_code =
     \<lparr>http_method = ''POST'', url = api_url c @ ''/api/ha/pair'',
      req_headers = headers c, req_payload = PairPayload pairing_code\<rparr>"

definition readings_request :: "client \<Rightarrow> reading list \<Rightarrow> request" where
  "readings_request c readings =
     \<lparr>http_method = ''POST'', url = api_url c @ ''/api/ha/readings'',
      req_headers = headers c, req_payload = ReadingsPayload (instance_id c) readings\<rparr>"

definition status_request :: "client \<Rightarrow> request" where
  "status_request c =
     \<lparr>http_method = ''GET'', url = api_url c @ ''/api/ha/status'',
      req_headers = headers c, req_payload = StatusParams (instance_id c)\<rparr>"

definition unpair_request :: "client \<Rightarrow> request" where
  "unpair_request c =
     \<lparr>http_method = ''POST'', url = api_url c @ ''/api/ha/unpair'',
      req_headers = headers c, req_payload = UnpairPayload (instance_id c)\<rparr>"

text \<open>
  \<open>await response.json()\<close> as the operations below see it, inside their \<open>try\<close>:
  the \<open>aiohttp.ClientError\<close> is caught and becomes \<open>CannotConnect\<close> (lines 100, 142,
  176), the \<open>JSONDecodeError\<close> is not caught.
\<close>

definition response_json :: "body \<Rightarrow> exn + jsonval" where
  "response_json b =
     (case b of
        Json data \<Rightarrow> Inr (JObject data)
      | NotObject \<Rightarrow> Inr JOther
      | Malformed \<Rightarrow> Inl JSONDecodeError
      | Unreadable \<Rightarrow> Inl CannotConnect)"

text \<open>
  Each operation takes the client and the network, and returns what it returns or
  raises, the client afterwards, and the requests it issued.

  \<open>async_pair\<close> (lines 57-101). The token is assigned before \<open>data["instance_id"]\<close> is
  looked up, so a body without that key leaves the token already replaced.
\<close>

definition async_pair ::
  "client \<Rightarrow> string \<Rightarrow> (request \<Rightarrow> net_outcome) \<Rightarrow> (exn + pydict) \<times> client \<times> request list" where
  "async_pair c pairing_code net =
     (let rq = pair_request c pairing_code in
      case net rq of
        TimeoutError \<Rightarrow> (Inl CannotConnect, c, [rq])
      | ClientError \<Rightarrow> (Inl CannotConnect, c, [rq])
      | Response st b \<Rightarrow>
          if st = 400 then
            (case response_json b of
               Inl e \<Rightarrow> (Inl e, c, [rq])
             | Inr JOther \<Rightarrow> (Inl AttributeError, c, [rq])
             | Inr (JObject data) \<Rightarrow>
                 if map_of data ''error'' = Some (PStr ''invalid_code'')
                 then (Inl InvalidPairingCode, c, [rq])
                 else (Inl GreenEnergyApiError, c, [rq]))
          else if st = 401 then (Inl InvalidPairingCode, c, [rq])
          else if st \<noteq> 200 then (Inl GreenEnergyApiError, c, [rq])
          else
            (case response_json b of
               Inl e \<Rightarrow> (Inl e, c, [rq])
             | Inr JOther \<Rightarrow> (Inl TypeError, c, [rq])
             | Inr (JObject data) \<Rightarrow>
                 (case map_of data ''api_token'' of
                    None \<Rightarrow> (Inl KeyError, c, [rq])
                  | Some tok \<Rightarrow>
                      (case map_of data ''instance_id'' of
                         None \<Rightarrow> (Inl KeyError, c\<lparr>token := tok\<rparr>, [rq])
                       | Some iid \<Rightarrow>
                           (Inr data, c\<lparr>token := tok, instance_id := iid\<rparr>, [rq])))))"

text \<open>
  The part shared by \<open>async_post_readings\<close> and \<open>async_get_status\<close> once the request
  has been issued (lines 124-143 and 158-177): whatever \<open>response.json()\<close> gives for a
  200 is returned as it is.
\<close>

definition json_response :: "net_outcome \<Rightarrow> exn + jsonval" where
  "json_response out =
     (case out of
        TimeoutError \<Rightarrow> Inl CannotConnect
      | ClientError \<Rightarrow> Inl CannotConnect
      | Response st b \<Rightarrow>
          if st = 401 then Inl AuthenticationError
          else if st \<noteq> 200 then Inl GreenEnergyApiError
          else response_json b)"

text \<open>\<open>async_post_readings\<close> (lines 103-143).\<close>

definition async_post_readings ::
  "client \<Rightarrow> reading list \<Rightarrow> (request \<Rightarrow> net_outcome) \<Rightarrow> (exn + jsonval) \<times> client \<times> request list" where
  "async_post_readings c readings net =
     (if \<not> truthy (token c) \<or> \<not> truthy (instance_id c) then (Inl AuthenticationError, c, [])
      else let rq = readings_request c readings in (json_response (net rq), c, [rq]))"

text \<open>\<open>async_get_status\<close> (lines 145-177).\<close>

definition async_get_status ::
  "client \<Rightarrow> (request \<Rightarrow> net_outcome) \<Rightarrow> (exn + jsonval) \<times> client \<times> request list" where
  "async_get_status c net =
     (if \<not> truthy (token c) \<or> \<not> truthy (instance_id c) then (Inl AuthenticationError, c, [])
      else let rq = status_request c in (json_response (net rq), c, [rq]))"

text \<open>\<open>async_unpair\<close> (lines 179-208): the body is never read.\<close>

definition async_unpair ::
  "client \<Rightarrow> (request \<Rightarrow> net_outcome) \<Rightarrow> (exn + bool) \<times> client \<times> request list" where
  "async_unpair c net =
     (if \<not> truthy (token c) \<or> \<not> truthy (instance_id c) then (Inl AuthenticationError, c, [])
      else let rq = unpair_request c in
        case net rq of
          TimeoutError \<Rightarrow> (Inl CannotConnect, c, [rq])
        | ClientError \<Rightarrow> (Inl CannotConnect, c, [rq])
        | Response st b \<Rightarrow>
            if st = 401 then (Inl AuthenticationError, c, [rq])
            else (Inr (st = 200), c, [rq]))"

section \<open>The sync coordinator (coordinator.py)\<close>

text \<open>
  The host's state object and state-change event, reduced to what
  \<open>_handle_state_change\<close> reads: \<open>event.data["entity_id"]\<close>,
  \<open>event.data.get("new_state")\<close>, and of the new state its \<open>state\<close>, \<open>attributes\<close>
  and \<open>last_updated\<close>.
\<close>

record ha_state =
  s_state :: string
  s_attributes :: pydict
  s_last_updated :: datetime

record event =
  data_entity_id :: string
  data_new_state :: "ha_state option"

text \<open>
  The debounced upload task as the coordinator sees it through \<open>_upload_task\<close>:
  sleeping out the debounce, awaiting the response to its upload, or done.
\<close>

datatype task = Sleeping | Uploading | Finished

text \<open>\<open>Task.done()\<close>.\<close>

fun is_done :: "task \<Rightarrow> bool" where
  "is_done Finished = True"
| "is_done _ = False"

text \<open>Which coroutine called \<open>_async_upload_buffered_data\<close>.\<close>

datatype caller = DebouncedUpload | UpdateData

text \<open>
  The coordinator's fields as \<open>__init__\<close> sets them (lines 48-59), then \<open>data\<close> (the
  last snapshot, kept by the base class), then the event loop's side of the picture:
  uploads and status calls awaiting a response, and what the coordinator has done so
  far: tasks created, the batches passed to \<open>async_post_readings\<close> in the order of the
  calls, the calls that have ended with what they returned or raised, the requests in
  the order they were issued, refreshes requested, update cycles that failed.
\<close>

record coordinator =
  api_client :: client
  data_buffer :: "reading list"
  upload_task :: "task option"
  last_upload :: "datetime option"
  readings_today :: int
  readings_today_date :: "string option"
  data :: "pydict option"
  in_flight :: "(caller \<times> reading list) list"
  awaiting_status :: nat
  tasks_created :: nat
  post_started :: "reading list list"
  post_calls :: "(reading list \<times> (exn + jsonval)) list"
  requests :: "request list"
  refresh_requests :: nat
  update_failures :: nat

definition new_coordinator :: "client \<Rightarrow> coordinator" where
  "new_coordinator c =
     \<lparr>api_client = c, data_buffer = [], upload_task = None, last_upload = None,
      readings_today = 0, readings_today_date = None, data = None,
      in_flight = [], awaiting_status = 0, tasks_created = 0, post_started = [],
      post_calls = [],
      requests = [], refresh_requests = 0, update_failures = 0\<rparr>"

subsection \<open>Buffering and scheduling (lines 150-184)\<close>

definition kept_attributes :: "string list" where
  "kept_attributes = [''unit_of_measurement'', ''device_class'', ''state_class'', ''friendly_name'']"

definition make_reading :: "string \<Rightarrow> ha_state \<Rightarrow> reading" where
  "make_reading eid ns =
     \<lparr>entity_id = eid, state = s_state ns,
      attributes = filter (\<lambda>(k, v). k \<in> set kept_attributes) (s_attributes ns),
      timestamp = isoformat (s_last_updated ns)\<rparr>"

text \<open>\<open>_schedule_upload\<close>: a task object is always truthy, so the guard is
  "there is a task and it is not done".\<close>

definition schedule_upload :: "coordinator \<Rightarrow> coordinator" where
  "schedule_upload s =
     (case upload_task s of
        Some t \<Rightarrow>
          if \<not> is_done t then s
          else s\<lparr>upload_task := Some Sleeping, tasks_created := tasks_created s + 1\<rparr>
      | None \<Rightarrow> s\<lparr>upload_task := Some Sleeping, tasks_created := tasks_created s + 1\<rparr>)"

text \<open>\<open>_handle_state_change\<close>.\<close>

definition handle_state_change :: "event \<Rightarrow> coordinator \<Rightarrow> coordinator" where
  "handle_state_change ev s =
     (case data_new_state ev of
        None \<Rightarrow> s
      | Some ns \<Rightarrow>
          schedule_upload
            (s\<lparr>data_buffer := data_buffer s @ [make_reading (data_entity_id ev) ns]\<rparr>))"

subsection \<open>Uploading the buffer (lines 192-208)\<close>

text \<open>
  \<open>_async_upload_buffered_data\<close> runs without suspension up to the network call and
  again from the response on. \<open>upload_begin\<close> is lines 194-198: nothing to do on an empty
  buffer, else copy and clear. \<open>upload_end\<close> is lines 203-208, given what
  \<open>async_post_readings\<close> returned or raised; \<open>upload_failed\<close> is its \<open>except\<close>
  clause: an exception that is not a \<open>GreenEnergyApiError\<close> is not caught and
  propagates, with the buffer left as it is.
\<close>

definition upload_begin :: "coordinator \<Rightarrow> reading list option \<times> coordinator" where
  "upload_begin s =
     (if data_buffer s = [] then (None, s)
      else (Some (data_buffer s), s\<lparr>data_buffer := []\<rparr>))"

definition upload_failed :: "reading list \<Rightarrow> exn \<Rightarrow> coordinator \<Rightarrow> exn option \<times> coordinator" where
  "upload_failed readings e s =
     (if is_api_error e then (None, s\<lparr>data_buffer := data_buffer s @ readings\<rparr>)
      else (Some e, s))"

definition upload_end ::
  "reading list \<Rightarrow> exn + jsonval \<Rightarrow> datetime \<Rightarrow> coordinator \<Rightarrow> exn option \<times> coordinator" where
  "upload_end readings result now s =
     (case result of
        Inr resp \<Rightarrow>
          (None, s\<lparr>last_upload := Some now,
                   readings_today := readings_today s + int (length readings)\<rparr>)
      | Inl e \<Rightarrow> upload_failed readings e s)"

text \<open>The call of the client, with the call and its requests entered in the logs.\<close>

definition post_readings :: "reading list \<Rightarrow> (request \<Rightarrow> net_outcome) \<Rightarrow> coordinator
    \<Rightarrow> (exn + jsonval) \<times> coordinator" where
  "post_readings readings net s =
     (case async_post_readings (api_client s) readings net of
        (result, c, rqs) \<Rightarrow>
          (result, s\<lparr>api_client := c, requests := requests s @ rqs,
                     post_started := post_started s @ [readings],
                     post_calls := post_calls s @ [(readings, result)]\<rparr>))"

text \<open>The whole of \<open>_async_upload_buffered_data\<close> when nothing else runs in between.\<close>

definition async_upload_buffered_data ::
  "(request \<Rightarrow> net_outcome) \<Rightarrow> datetime \<Rightarrow> coordinator \<Rightarrow> exn option \<times> coordinator" where
  "async_upload_buffered_data net now s =
     (case upload_begin s of
        (None, s1) \<Rightarrow> (None, s1)
      | (Some readings, s1) \<Rightarrow>
          (case post_readings readings net s1 of
             (result, s2) \<Rightarrow> upload_end readings result now s2))"

subsection \<open>The update cycle (lines 91-122)\<close>

datatype update_error = UpdateFailed string | Propagated exn

text \<open>
  Lines 106-122: the day counter is reset when the stored date is not today's, then the
  snapshot is built. The clock is read twice, for \<open>today\<close> and for \<open>last_sync\<close>. A
  status that is not a dict has no \<open>get\<close>: the dict display raises \<open>AttributeError\<close>,
  after the counter has been looked at.
\<close>

definition build_snapshot ::
  "jsonval \<Rightarrow> datetime \<Rightarrow> datetime \<Rightarrow> coordinator \<Rightarrow> (exn + pydict) \<times> coordinator" where
  "build_snapshot status now1 now2 s =
     (let today = date_iso now1;
          s1 = (if readings_today_date s \<noteq> Some today
                then s\<lparr>readings_today := 0, readings_today_date := Some today\<rparr>
                else s)
      in case status of
           JOther \<Rightarrow> (Inl AttributeError, s1)
         | JObject st \<Rightarrow>
             (Inr [(''connected'', PBool True),
                   (''sync_status'', PStr ''synced''),
                   (''last_sync'', PStr (isoformat now2)),
                   (''readings_today'', PInt (readings_today s1)),
                   (''recommendation'', get_default st ''recommendation'' (PStr ''No action needed'')),
                   (''recommendation_reason'', get_default st ''recommendation_reason'' PNone),
                   (''recommendation_expires'', get_default st ''recommendation_expires'' PNone),
                   (''savings_today'', get_default st ''savings_today_pence'' (PInt 0)),
                   (''tariff_rate'', get_default st ''current_rate_pence'' PNone)],
              s1))"

text \<open>Lines 97-104: what the three \<open>except\<close> clauses make of an exception.\<close>

definition status_failure :: "exn \<Rightarrow> update_error" where
  "status_failure e =
     (if e = AuthenticationError then UpdateFailed ''Authentication failed''
      else if e = CannotConnect then UpdateFailed ''Cannot connect''
      else if is_api_error e then UpdateFailed ''API error''
      else Propagated e)"

definition get_status :: "(request \<Rightarrow> net_outcome) \<Rightarrow> coordinator
    \<Rightarrow> (exn + jsonval) \<times> coordinator" where
  "get_status net s =
     (case async_get_status (api_client s) net of
        (result, c, rqs) \<Rightarrow> (result, s\<lparr>api_client := c, requests := requests s @ rqs\<rparr>))"

text \<open>
  \<open>_async_update_data\<close> when nothing else runs in between. \<open>now_up\<close> is the clock
  read by the upload, \<open>now1\<close> and \<open>now2\<close> the two reads of lines 107 and 115. The
  snapshot returned becomes \<open>data\<close>; a failed cycle leaves \<open>data\<close> as it was. An
  exception that no \<open>except\<close> clause catches leaves the cycle as it is.
\<close>

definition async_update_data ::
  "(request \<Rightarrow> net_outcome) \<Rightarrow> datetime \<Rightarrow> datetime \<Rightarrow> datetime \<Rightarrow> coordinator
    \<Rightarrow> (update_error + pydict) \<times> coordinator" where
  "async_update_data net now_up now1 now2 s =
     (case async_upload_buffered_data net now_up s of
        (Some e, s1) \<Rightarrow> (Inl (Propagated e), s1\<lparr>update_failures := update_failures s1 + 1\<rparr>)
      | (None, s1) \<Rightarrow>
          (case get_status net s1 of
             (Inl e, s2) \<Rightarrow>
               (Inl (status_failure e), s2\<lparr>update_failures := update_failures s2 + 1\<rparr>)
           | (Inr status, s2) \<Rightarrow>
               (case build_snapshot status now1 now2 s2 of
                  (Inl e, s3) \<Rightarrow>
                    (Inl (Propagated e), s3\<lparr>update_failures := update_failures s3 + 1\<rparr>)
                | (Inr snapshot, s3) \<Rightarrow> (Inr snapshot, s3\<lparr>data := Some snapshot\<rparr>))))"

subsection \<open>The sync-status sensor (sensor.py, lines 84-89)\<close>

definition native_value :: "coordinator \<Rightarrow> pyval" where
  "native_value s =
     (case data s of
        None \<Rightarrow> PStr ''unknown''
      | Some d \<Rightarrow> get_default d ''sync_status'' (PStr ''unknown''))"

subsection \<open>Interleaving on the event loop\<close>

text \<open>
  The coroutines suspend at the debounce sleep and at the two network calls, and the
  state-change callback can run at each suspension. A step of the event loop is a
  state change, the debounce of the upload task elapsing, an update cycle starting,
  or the outcome of a pending network call arriving. A call of the client checks the
  credentials and issues its request without suspending; an upload whose request is
  out waits in \<open>in_flight\<close> for the outcome, a cycle whose status request is out
  counts in \<open>awaiting_status\<close>. A client without credentials raises at once, so the
  caller goes on in the same step. Any number of update cycles may overlap.
  Unloading (\<open>async_stop_listeners\<close>), which cancels the upload task, is not a step:
  what is in flight then is given up.
\<close>

text \<open>
  What follows \<open>_async_upload_buffered_data\<close> in its caller: the upload task requests
  a refresh (line 190) and is done; the update cycle goes on to \<open>async_get_status\<close>
  (line 98), which issues its request or, without credentials, raises at once. An
  exception that propagated ends either of them.
\<close>

definition after_upload :: "caller \<Rightarrow> exn option \<Rightarrow> coordinator \<Rightarrow> coordinator" where
  "after_upload who ex s =
     (case who of
        DebouncedUpload \<Rightarrow>
          (case ex of
             None \<Rightarrow> s\<lparr>upload_task := Some Finished,
                       refresh_requests := refresh_requests s + 1\<rparr>
           | Some e \<Rightarrow> s\<lparr>upload_task := Some Finished\<rparr>)
      | UpdateData \<Rightarrow>
          (case ex of
             None \<Rightarrow>
               if authenticated (api_client s)
               then s\<lparr>requests := requests s @ [status_request (api_client s)],
                       awaiting_status := awaiting_status s + 1\<rparr>
               else s\<lparr>update_failures := update_failures s + 1\<rparr>
           | Some e \<Rightarrow> s\<lparr>update_failures := update_failures s + 1\<rparr>))"

text \<open>
  Lines 194-202 up to the suspension: the snapshot is taken and
  \<open>async_post_readings\<close> is called with it.
\<close>

definition start_upload :: "caller \<Rightarrow> coordinator \<Rightarrow> coordinator" where
  "start_upload who s =
     (case upload_begin s of
        (None, s1) \<Rightarrow> after_upload who None s1
      | (Some readings, s1) \<Rightarrow>
          (let s2 = s1\<lparr>post_started := post_started s1 @ [readings]\<rparr> in
           if authenticated (api_client s2)
           then s2\<lparr>requests := requests s2 @ [readings_request (api_client s2) readings],
                    in_flight := in_flight s2 @ [(who, readings)]\<rparr>
           else
             (case upload_failed readings AuthenticationError
                     (s2\<lparr>post_calls := post_calls s2 @ [(readings, Inl AuthenticationError)]\<rparr>) of
                (ex, s3) \<Rightarrow> after_upload who ex s3)))"

text \<open>The outcome of the \<open>i\<close>-th upload in flight arrives: lines 203-208, then the caller.\<close>

definition finish_upload :: "nat \<Rightarrow> net_outcome \<Rightarrow> datetime \<Rightarrow> coordinator \<Rightarrow> coordinator" where
  "finish_upload i out now s =
     (if i < length (in_flight s) then
        (case in_flight s ! i of
           (who, readings) \<Rightarrow>
             (let result = json_response out;
                  s1 = s\<lparr>in_flight := take i (in_flight s) @ drop (Suc i) (in_flight s),
                         post_calls := post_calls s @ [(readings, result)]\<rparr>
              in case upload_end readings result now s1 of
                   (ex, s2) \<Rightarrow> after_upload who ex s2))
      else s)"

text \<open>The outcome of a status request arrives: lines 99-122.\<close>

definition finish_status :: "net_outcome \<Rightarrow> datetime \<Rightarrow> datetime \<Rightarrow> coordinator \<Rightarrow> coordinator" where
  "finish_status out now1 now2 s =
     (if awaiting_status s = 0 then s
      else
        (let s0 = s\<lparr>awaiting_status := awaiting_status s - 1\<rparr> in
         case json_response out of
           Inl e \<Rightarrow> s0\<lparr>update_failures := update_failures s0 + 1\<rparr>
         | Inr status \<Rightarrow>
             (case build_snapshot status now1 now2 s0 of
                (Inl e, s1) \<Rightarrow> s1\<lparr>update_failures := update_failures s1 + 1\<rparr>
              | (Inr snapshot, s1) \<Rightarrow> s1\<lparr>data := Some snapshot\<rparr>)))"

datatype action =
  StateChange event
| DebounceElapsed
| RefreshStart
| PostReturns nat net_outcome datetime
| StatusReturns net_outcome datetime datetime

fun step :: "action \<Rightarrow> coordinator \<Rightarrow> coordinator" where
  "step (StateChange ev) s = handle_state_change ev s"
| "step DebounceElapsed s =
     (if upload_task s = Some Sleeping
      then start_upload DebouncedUpload (s\<lparr>upload_task := Some Uploading\<rparr>)
      else s)"
| "step RefreshStart s = start_upload UpdateData s"
| "step (PostReturns i out now) s = finish_upload i out now s"
| "step (StatusReturns out now1 now2) s = finish_status out now1 now2 s"

fun run :: "action list \<Rightarrow> coordinator \<Rightarrow> coordinator" where
  "run [] s = s"
| "run (e # es) s = run es (step e s)"

text \<open>The readings a step puts in the buffer, and those a run of steps does.\<close>

fun buffered_by :: "action \<Rightarrow> reading list" where
  "buffered_by (StateChange ev) =
     (case data_new_state ev of
        None \<Rightarrow> []
      | Some ns \<Rightarrow> [make_reading (data_entity_id ev) ns])"
| "buffered_by _ = []"

definition buffered_in :: "action list \<Rightarrow> reading list" where
  "buffered_in tr = concat (map buffered_by tr)"

text \<open>
  The readings of the calls of \<open>async_post_readings\<close> that returned, those of the
  snapshots still awaiting their outcome, and the two together with the buffer.
\<close>

definition uploaded :: "coordinator \<Rightarrow> reading list" where
  "uploaded s = concat (map fst (filter (\<lambda>(batch, result). isl result = False) (post_calls s)))"

definition pending :: "coordinator \<Rightarrow> reading list" where
  "pending s = concat (map snd (in_flight s))"

definition accounted :: "coordinator \<Rightarrow> reading multiset" where
  "accounted s = mset (data_buffer s) + mset (pending s) + mset (uploaded s)"

text \<open>The steps at which a coroutine calls \<open>_async_upload_buffered_data\<close>.\<close>

fun starts_upload :: "action \<Rightarrow> bool" where
  "starts_upload DebounceElapsed = True"
| "starts_upload RefreshStart = True"
| "starts_upload _ = False"

text \<open>
  A step is handled when it is not the outcome of an upload on which
  \<open>async_post_readings\<close> raises something that \<open>except GreenEnergyApiError\<close> lets
  through.
\<close>

fun handled :: "action \<Rightarrow> bool" where
  "handled (PostReturns i out now) =
     (case json_response out of Inl e \<Rightarrow> is_api_error e | Inr resp \<Rightarrow> True)"
| "handled _ = True"

text \<open>The requests that \<open>async_post_readings\<close> issues.\<close>

definition is_post_readings :: "request \<Rightarrow> bool" where
  "is_post_readings rq =
     (case req_payload rq of ReadingsPayload iid readings \<Rightarrow> True | _ \<Rightarrow> False)"

text \<open>The uploads in flight that the debounced task started.\<close>

definition task_uploads :: "coordinator \<Rightarrow> (caller \<times> reading list) list" where
  "task_uploads s = filter (\<lambda>x. fst x = DebouncedUpload) (in_flight s)"

section \<open>Example values\<close>

text \<open>
  A paired and an unpaired client; three instants around midnight, \<open>ex_day1\<close> at
  23:59:58, \<open>ex_soon\<close> three seconds and \<open>ex_day2\<close> six seconds later; state-change
  events with the readings they produce; a successful response and two pairing
  responses, the second with an empty token.
\<close>

definition ex_client :: client where
  "ex_client = new_client ''https://green.example/'' (PStr ''t1'') (PStr ''i1'')"

definition ex_unpaired :: client where
  "ex_unpaired = new_client ''https://green.example'' PNone PNone"

definition ex_day1 :: datetime where
  "ex_day1 = \<lparr>date_iso = ''2024-01-01'', time_iso = ''23:59:58''\<rparr>"

definition ex_soon :: datetime where
  "ex_soon = \<lparr>date_iso = ''2024-01-02'', time_iso = ''00:00:01''\<rparr>"

definition ex_day2 :: datetime where
  "ex_day2 = \<lparr>date_iso = ''2024-01-02'', time_iso = ''00:00:04''\<rparr>"

definition ex_event1 :: event where
  "ex_event1 =
     \<lparr>data_entity_id = ''sensor.solar'',
      data_new_state = Some \<lparr>s_state = ''5'',
        s_attributes = [(''unit_of_measurement'', PStr ''W''), (''icon'', PStr ''mdi:sun'')],
        s_last_updated = ex_day1\<rparr>\<rparr>"

definition ex_event2 :: event where
  "ex_event2 =
     \<lparr>data_entity_id = ''sensor.grid'',
      data_new_state = Some \<lparr>s_state = ''unavailable'', s_attributes = [],
        s_last_updated = ex_soon\<rparr>\<rparr>"

definition ex_event3 :: event where
  "ex_event3 =
     \<lparr>data_entity_id = ''sensor.battery'',
      data_new_state = Some \<lparr>s_state = ''80'', s_attributes = [],
        s_last_updated = ex_day2\<rparr>\<rparr>"

definition ex_event4 :: event where
  "ex_event4 =
     \<lparr>data_entity_id = ''sensor.solar'',
      data_new_state = Some \<lparr>s_state = ''6'', s_attributes = [],
        s_last_updated = \<lparr>date_iso = ''2024-01-02'', time_iso = ''00:00:06''\<rparr>\<rparr>\<rparr>"

definition ex_reading1 :: reading where
  "ex_reading1 =
     \<lparr>entity_id = ''sensor.solar'', state = ''5'',
      attributes = [(''unit_of_measurement'', PStr ''W'')],
      timestamp = ''2024-01-01T23:59:58''\<rparr>"

definition ex_reading2 :: reading where
  "ex_reading2 =
     \<lparr>entity_id = ''sensor.grid'', state = ''unavailable'', attributes = [],
      timestamp = ''2024-01-02T00:00:01''\<rparr>"

definition ex_reading3 :: reading where
  "ex_reading3 =
     \<lparr>entity_id = ''sensor.battery'', state = ''80'', attributes = [],
      timestamp = ''2024-01-02T00:00:04''\<rparr>"

definition ex_reading4 :: reading where
  "ex_reading4 =
     \<lparr>entity_id = ''sensor.solar'', state = ''6'', attributes = [],
      timestamp = ''2024-01-02T00:00:06''\<rparr>"

definition ex_ok :: net_outcome where
  "ex_ok = Response 200 (Json [])"

definition ex_pair_body :: pydict where
  "ex_pair_body =
     [(''api_token'', PStr ''t1''), (''instance_id'', PStr ''i1''),
      (''user_email'', PStr ''a@b.com'')]"

definition ex_empty_token_body :: pydict where
  "ex_empty_token_body =
     [(''api_token'', PStr []), (''instance_id'', PStr ''i1''),
      (''user_email'', PStr ''a@b.com'')]"

text \<open>
  Two readings in one debounce window with an update cycle between them: the first
  reading, the cycle's upload and its outcome, the second reading three seconds after
  the first, the debounce elapsing and the outcome of the task's upload.
\<close>

definition ex_split_window :: "action list" where
  "ex_split_window =
     [StateChange ex_event1, RefreshStart, PostReturns 0 ex_ok ex_day1,
      StateChange ex_event2, DebounceElapsed, PostReturns 0 ex_ok ex_day2]"

text \<open>
  A reading arriving while the upload of an update cycle is in flight, the connection
  of which then breaks, before the debounce of the first reading's task elapses.
\<close>

definition ex_failed_upload :: "action list" where
  "ex_failed_upload =
     [StateChange ex_event1, RefreshStart, StateChange ex_event2,
      PostReturns 0 ClientError ex_soon]"

text \<open>
  The same up to the second reading, but the connection holds: the debounce elapses
  and the task uploads the second reading while the cycle's upload is still out.
\<close>

definition ex_two_in_flight :: "action list" where
  "ex_two_in_flight =
     [StateChange ex_event1, RefreshStart, StateChange ex_event2, DebounceElapsed]"

text \<open>An upload answered with status 200 and a body that is not JSON.\<close>

definition ex_lost_batch :: "action list" where
  "ex_lost_batch =
     [StateChange ex_event1, RefreshStart, PostReturns 0 (Response 200 Malformed) ex_day1]"

text \<open>
  An update cycle takes the first reading; its request is still out when the debounce
  of the first task elapses on an empty buffer. In the window of the next task the
  cycle's connection breaks between two readings.
\<close>

definition ex_before_window :: "action list" where
  "ex_before_window = [StateChange ex_event1, RefreshStart, DebounceElapsed]"

definition ex_window :: "action list" where
  "ex_window = [StateChange ex_event3, PostReturns 0 ClientError ex_day2, StateChange ex_event4]"

text \<open>
  A first update cycle on day 1, a reading, and the next update cycle after midnight,
  whose upload and status call both succeed.
\<close>

definition ex_over_midnight :: "action list" where
  "ex_over_midnight =
     [RefreshStart, StatusReturns ex_ok ex_day1 ex_day1,
      StateChange ex_event2,
      RefreshStart, PostReturns 0 ex_ok ex_day2, StatusReturns ex_ok ex_day2 ex_day2]"

text \<open>The coordinator of day 1 with five readings counted and one in the buffer.\<close>

definition ex_late_evening :: coordinator where
  "ex_late_evening =
     (new_coordinator ex_client)
       \<lparr>data_buffer := [ex_reading2], readings_today := 5,
        readings_today_date := Some ''2024-01-01''\<rparr>"

section \<open>Unfolding the examples\<close>

lemmas ex_defs = ex_client_def ex_unpaired_def ex_day1_def ex_soon_def ex_day2_def
  ex_event1_def ex_event2_def ex_event3_def ex_event4_def ex_reading1_def ex_reading2_def
  ex_reading3_def ex_reading4_def ex_ok_def ex_pair_body_def ex_empty_token_body_def
  ex_split_window_def ex_failed_upload_def ex_two_in_flight_def ex_lost_batch_def
  ex_before_window_def ex_window_def ex_over_midnight_def ex_late_evening_def

lemmas client_defs = new_client_def rstrip_slash_def headers_def pair_request_def
  readings_request_def status_request_def unpair_request_def response_json_def
  async_pair_def json_response_def async_post_readings_def async_get_status_def
  async_unpair_def authenticated_def

lemmas coordinator_defs = new_coordinator_def make_reading_def kept_attributes_def
  isoformat_def handle_state_change_def schedule_upload_def upload_begin_def
  upload_failed_def upload_end_def post_readings_def async_upload_buffered_data_def
  build_snapshot_def get_default_def status_failure_def get_status_def
  async_update_data_def after_upload_def start_upload_def finish_upload_def
  finish_status_def Let_def

section \<open>What a call of the client gives\<close>

lemma async_post_readings_client: "fst (snd (async_post_readings c rs net)) = c"
  by (simp add: async_post_readings_def Let_def)

lemma async_get_status_client: "fst (snd (async_get_status c net)) = c"
  by (simp add: async_get_status_def Let_def)

lemma async_post_readings_result:
  "fst (async_post_readings c rs net)
     = (if authenticated c then json_response (net (readings_request c rs))
        else Inl AuthenticationError)"
  by (simp add: async_post_readings_def authenticated_def Let_def)

lemma async_post_readings_requests:
  "snd (snd (async_post_readings c rs net))
     = (if authenticated c then [readings_request c rs] else [])"
  by (simp add: async_post_readings_def authenticated_def Let_def)

lemma async_get_status_result:
  "fst (async_get_status c net)
     = (if authenticated c then json_response (net (status_request c))
        else Inl AuthenticationError)"
  by (simp add: async_get_status_def authenticated_def Let_def)

lemma post_readings_eq:
  "post_readings rs net s =
     (fst (async_post_readings (api_client s) rs net),
      s\<lparr>requests := requests s @ snd (snd (async_post_readings (api_client s) rs net)),
        post_started := post_started s @ [rs],
        post_calls := post_calls s @ [(rs, fst (async_post_readings (api_client s) rs net))]\<rparr>)"
  using async_post_readings_client[of "api_client s" rs net]
  by (cases "async_post_readings (api_client s) rs net") (simp add: post_readings_def)

lemma get_status_eq:
  "get_status net s =
     (fst (async_get_status (api_client s) net),
      s\<lparr>requests := requests s @ snd (snd (async_get_status (api_client s) net))\<rparr>)"
  using async_get_status_client[of "api_client s" net]
  by (cases "async_get_status (api_client s) net") (simp add: get_status_def)

section \<open>One upload, from snapshot to outcome\<close>

lemma upload_end_success:
  "upload_end rs (Inr resp) now s =
     (None, s\<lparr>last_upload := Some now, readings_today := readings_today s + int (length rs)\<rparr>)"
  by (simp add: upload_end_def)

lemma upload_end_api_error:
  "is_api_error e \<Longrightarrow> upload_end rs (Inl e) now s = (None, s\<lparr>data_buffer := data_buffer s @ rs\<rparr>)"
  by (simp add: upload_end_def upload_failed_def)

lemma upload_end_other_error:
  "\<not> is_api_error e \<Longrightarrow> upload_end rs (Inl e) now s = (Some e, s)"
  by (simp add: upload_end_def upload_failed_def)

lemma after_upload_frame:
  "data_buffer (after_upload who ex s) = data_buffer s"
  "readings_today (after_upload who ex s) = readings_today s"
  "readings_today_date (after_upload who ex s) = readings_today_date s"
  "last_upload (after_upload who ex s) = last_upload s"
  "post_started (after_upload who ex s) = post_started s"
  "post_calls (after_upload who ex s) = post_calls s"
  "in_flight (after_upload who ex s) = in_flight s"
  "tasks_created (after_upload who ex s) = tasks_created s"
  "api_client (after_upload who ex s) = api_client s"
  "data (after_upload who ex s) = data s"
  by (simp_all add: after_upload_def split: caller.splits option.splits)

lemma after_upload_requests:
  "filter is_post_readings (requests (after_upload who ex s)) = filter is_post_readings (requests s)"
  by (simp add: after_upload_def is_post_readings_def status_request_def
      split: caller.splits option.splits)

lemma after_upload_task:
  "upload_task (after_upload UpdateData ex s) = upload_task s"
  "upload_task (after_upload DebouncedUpload ex s) = Some Finished"
  by (simp_all add: after_upload_def split: option.splits)

lemma start_upload_empty:
  "data_buffer s = [] \<Longrightarrow> start_upload who s = after_upload who None s"
  by (simp add: start_upload_def upload_begin_def)

lemma start_upload_nonempty:
  "data_buffer s \<noteq> [] \<Longrightarrow> authenticated (api_client s) \<Longrightarrow>
     start_upload who s
       = s\<lparr>data_buffer := [], post_started := post_started s @ [data_buffer s],
           requests := requests s @ [readings_request (api_client s) (data_buffer s)],
           in_flight := in_flight s @ [(who, data_buffer s)]\<rparr>"
  by (simp add: start_upload_def upload_begin_def Let_def)

lemma start_upload_unauthenticated:
  "data_buffer s \<noteq> [] \<Longrightarrow> \<not> authenticated (api_client s) \<Longrightarrow>
     start_upload who s
       = after_upload who None
           (s\<lparr>post_started := post_started s @ [data_buffer s],
              post_calls := post_calls s @ [(data_buffer s, Inl AuthenticationError)]\<rparr>)"
  by (simp add: start_upload_def upload_begin_def upload_failed_def Let_def)

lemma start_upload_post_started:
  "post_started (start_upload who s)
     = post_started s @ (if data_buffer s = [] then [] else [data_buffer s])"
  by (cases "data_buffer s = []"; cases "authenticated (api_client s)")
     (simp_all add: start_upload_empty start_upload_nonempty start_upload_unauthenticated
        after_upload_frame)

text \<open>The outcome of the \<open>i\<close>-th upload in flight, by what the call does with it.\<close>

lemma finish_upload_eq:
  assumes "i < length (in_flight s)" and "in_flight s ! i = (who, rs)"
  shows "finish_upload i out now s =
     (case upload_end rs (json_response out) now
             (s\<lparr>in_flight := take i (in_flight s) @ drop (Suc i) (in_flight s),
                post_calls := post_calls s @ [(rs, json_response out)]\<rparr>) of
        (ex, s2) \<Rightarrow> after_upload who ex s2)"
  using assms by (simp add: finish_upload_def Let_def)

lemma finish_upload_returned:
  assumes "i < length (in_flight s)" and "in_flight s ! i = (who, rs)"
    and "json_response out = Inr resp"
  shows "finish_upload i out now s =
     after_upload who None
       (s\<lparr>in_flight := take i (in_flight s) @ drop (Suc i) (in_flight s),
          post_calls := post_calls s @ [(rs, Inr resp)],
          last_upload := Some now, readings_today := readings_today s + int (length rs)\<rparr>)"
  using assms(3) by (simp add: finish_upload_eq[OF assms(1,2)] upload_end_success)

lemma finish_upload_api_error:
  assumes "i < length (in_flight s)" and "in_flight s ! i = (who, rs)"
    and "json_response out = Inl e" and "is_api_error e"
  shows "finish_upload i out now s =
     after_upload who None
       (s\<lparr>in_flight := take i (in_flight s) @ drop (Suc i) (in_flight s),
          post_calls := post_calls s @ [(rs, Inl e)],
          data_buffer := data_buffer s @ rs\<rparr>)"
  using assms(3,4) by (simp add: finish_upload_eq[OF assms(1,2)] upload_end_api_error)

lemma finish_upload_other_error:
  assumes "i < length (in_flight s)" and "in_flight s ! i = (who, rs)"
    and "json_response out = Inl e" and "\<not> is_api_error e"
  shows "finish_upload i out now s =
     after_upload who (Some e)
       (s\<lparr>in_flight := take i (in_flight s) @ drop (Suc i) (in_flight s),
          post_calls := post_calls s @ [(rs, Inl e)]\<rparr>)"
  using assms(3,4) by (simp add: finish_upload_eq[OF assms(1,2)] upload_end_other_error)

lemma upload_success:
  "data_buffer s \<noteq> [] \<Longrightarrow>
   fst (async_post_readings (api_client s) (data_buffer s) net) = Inr resp \<Longrightarrow>
     post_calls (snd (async_upload_buffered_data net now s))
       = post_calls s @ [(data_buffer s, Inr resp)]
   \<and> last_upload (snd (async_upload_buffered_data net now s)) = Some now"
  by (simp add: async_upload_buffered_data_def upload_begin_def post_readings_eq
      upload_end_success)

section \<open>State changes between two other steps\<close>

lemma run_append: "run (xs @ ys) s = run ys (run xs s)"
  by (induction xs arbitrary: s) simp_all

lemma buffered_in_append: "buffered_in (xs @ ys) = buffered_in xs @ buffered_in ys"
  by (simp add: buffered_in_def)

lemma handle_state_change_pending:
  "upload_task s = Some t \<Longrightarrow> \<not> is_done t \<Longrightarrow>
     handle_state_change ev s
       = s\<lparr>data_buffer := data_buffer s @ buffered_by (StateChange ev)\<rparr>"
  by (simp add: handle_state_change_def schedule_upload_def split: option.splits)

lemma handle_state_change_idle:
  "upload_task s = None \<or> upload_task s = Some Finished \<Longrightarrow> data_new_state ev \<noteq> None \<Longrightarrow>
     handle_state_change ev s
       = s\<lparr>data_buffer := data_buffer s @ buffered_by (StateChange ev),
           upload_task := Some Sleeping, tasks_created := tasks_created s + 1\<rparr>"
  by (auto simp: handle_state_change_def schedule_upload_def split: option.splits)

lemma handle_state_change_dropped:
  "data_new_state ev = None \<Longrightarrow> handle_state_change ev s = s"
  by (simp add: handle_state_change_def)

lemma handle_state_change_buffer:
  "data_buffer (handle_state_change ev s) = data_buffer s @ buffered_by (StateChange ev)"
  by (simp add: handle_state_change_def schedule_upload_def split: option.splits)

lemma handle_state_change_frame:
  "in_flight (handle_state_change ev s) = in_flight s"
  "post_started (handle_state_change ev s) = post_started s"
  "post_calls (handle_state_change ev s) = post_calls s"
  "requests (handle_state_change ev s) = requests s"
  "api_client (handle_state_change ev s) = api_client s"
  "data (handle_state_change ev s) = data s"
  by (simp_all add: handle_state_change_def schedule_upload_def split: option.splits)

lemma run_state_changes_buffer:
  "data_buffer (run (map StateChange evs) s) = data_buffer s @ buffered_in (map StateChange evs)"
  by (induction evs arbitrary: s) (simp_all add: buffered_in_def handle_state_change_buffer)

lemma run_state_changes_frame:
  "in_flight (run (map StateChange evs) s) = in_flight s"
  "post_calls (run (map StateChange evs) s) = post_calls s"
  "api_client (run (map StateChange evs) s) = api_client s"
  by (induction evs arbitrary: s) (simp_all add: handle_state_change_frame)

section \<open>Where every reading is\<close>

lemma mset_pending_remove:
  assumes "i < length xs"
  shows "mset (concat (map snd (take i xs @ drop (Suc i) xs))) + mset (snd (xs ! i))
         = mset (concat (map snd xs))"
proof -
  have "xs = take i xs @ xs ! i # drop (Suc i) xs"
    using assms by (rule id_take_nth_drop)
  then have "mset (concat (map snd xs))
      = mset (concat (map snd (take i xs @ xs ! i # drop (Suc i) xs)))" by simp
  then show ?thesis by simp
qed

lemma accounted_schedule_upload: "accounted (schedule_upload s) = accounted s"
  by (simp add: accounted_def schedule_upload_def pending_def uploaded_def split: option.splits)

lemma accounted_handle_state_change:
  "accounted (handle_state_change ev s) = accounted s + mset (buffered_by (StateChange ev))"
  by (simp add: handle_state_change_def accounted_schedule_upload split: option.splits)
     (simp add: accounted_def pending_def uploaded_def)

lemma accounted_after_upload: "accounted (after_upload who ex s) = accounted s"
  by (simp add: accounted_def pending_def uploaded_def after_upload_frame)

lemma accounted_start_upload: "accounted (start_upload who s) = accounted s"
proof (cases "data_buffer s = []")
  case True
  then show ?thesis by (simp add: start_upload_empty accounted_after_upload)
next
  case False
  show ?thesis
  proof (cases "authenticated (api_client s)")
    case True
    with False show ?thesis
      by (simp add: start_upload_nonempty) (simp add: accounted_def pending_def uploaded_def)
  next
    case unauth: False
    have "accounted (start_upload who s)
        = accounted (snd (upload_failed (data_buffer s) AuthenticationError
            (s\<lparr>data_buffer := [], post_started := post_started s @ [data_buffer s],
               post_calls := post_calls s @ [(data_buffer s, Inl AuthenticationError)]\<rparr>)))"
      using False unauth
      by (simp add: start_upload_def upload_begin_def upload_failed_def Let_def
          accounted_after_upload)
    also have "\<dots> = accounted s"
      by (simp add: upload_failed_def) (simp add: accounted_def pending_def uploaded_def)
    finally show ?thesis .
  qed
qed

lemma accounted_finish_upload:
  assumes "handled (PostReturns i out now)"
  shows "accounted (finish_upload i out now s) = accounted s"
proof (cases "i < length (in_flight s)")
  case False
  then show ?thesis by (simp add: finish_upload_def)
next
  case True
  obtain who rs where ith: "in_flight s ! i = (who, rs)" by (cases "in_flight s ! i")
  from mset_pending_remove[OF True] ith
  have rem: "mset (pending s)
      = mset (concat (map snd (take i (in_flight s) @ drop (Suc i) (in_flight s)))) + mset rs"
    by (simp add: pending_def)
  show ?thesis
  proof (cases "json_response out")
    case (Inl e)
    with assms have "is_api_error e" by simp
    from finish_upload_api_error[OF True ith Inl this] rem show ?thesis
      by (simp add: accounted_after_upload) (simp add: accounted_def pending_def uploaded_def)
  next
    case (Inr resp)
    from finish_upload_returned[OF True ith Inr] rem show ?thesis
      by (simp add: accounted_after_upload) (simp add: accounted_def pending_def uploaded_def)
  qed
qed

lemma accounted_finish_status: "accounted (finish_status out now1 now2 s) = accounted s"
  by (simp add: finish_status_def build_snapshot_def Let_def accounted_def pending_def
      uploaded_def split: sum.splits jsonval.splits)

lemma accounted_step:
  "handled a \<Longrightarrow> accounted (step a s) = accounted s + mset (buffered_by a)"
proof (cases a)
  case (StateChange ev)
  then show ?thesis by (simp add: accounted_handle_state_change)
next
  case DebounceElapsed
  have "accounted (s\<lparr>upload_task := Some Uploading\<rparr>) = accounted s"
    by (simp add: accounted_def pending_def uploaded_def)
  with DebounceElapsed show ?thesis by (simp add: accounted_start_upload)
next
  case RefreshStart
  then show ?thesis by (simp add: accounted_start_upload)
next
  case (PostReturns i out now)
  assume "handled a"
  with PostReturns show ?thesis by (simp add: accounted_finish_upload)
next
  case (StatusReturns out now1 now2)
  then show ?thesis by (simp add: accounted_finish_status)
qed

lemma accounted_run:
  "\<forall>a\<in>set tr. handled a \<Longrightarrow> accounted (run tr s) = accounted s + mset (buffered_in tr)"
  by (induction tr arbitrary: s) (simp_all add: buffered_in_def accounted_step)

section \<open>The update cycle, phase by phase\<close>

lemma build_snapshot_fields:
  assumes "build_snapshot status now1 now2 s = (Inr snapshot, s1)"
  shows "map_of snapshot ''connected'' = Some (PBool True)"
    and "map_of snapshot ''sync_status'' = Some (PStr ''synced'')"
    and "map_of snapshot ''readings_today'' = Some (PInt (readings_today s1))"
  using assms by (auto simp: build_snapshot_def Let_def split: jsonval.splits)

lemma build_snapshot_rollover:
  "readings_today_date s \<noteq> Some (date_iso now1) \<Longrightarrow>
     readings_today (snd (build_snapshot status now1 now2 s)) = 0
   \<and> readings_today_date (snd (build_snapshot status now1 now2 s)) = Some (date_iso now1)"
  by (simp add: build_snapshot_def Let_def split: jsonval.splits)

lemma build_snapshot_frame:
  "data (snd (build_snapshot status now1 now2 s)) = data s"
  "post_calls (snd (build_snapshot status now1 now2 s)) = post_calls s"
  "last_upload (snd (build_snapshot status now1 now2 s)) = last_upload s"
  "data_buffer (snd (build_snapshot status now1 now2 s)) = data_buffer s"
  by (simp_all add: build_snapshot_def Let_def split: jsonval.splits)

lemma build_snapshot_object:
  "\<exists>snapshot. fst (build_snapshot (JObject st) now1 now2 s) = Inr snapshot"
  by (simp add: build_snapshot_def Let_def)

lemma upload_keeps_date:
  "readings_today_date (snd (async_upload_buffered_data net now s)) = readings_today_date s"
  by (simp add: async_upload_buffered_data_def upload_begin_def post_readings_eq
      upload_end_def upload_failed_def split: sum.splits)

lemma upload_keeps_data:
  "data (snd (async_upload_buffered_data net now s)) = data s"
  by (simp add: async_upload_buffered_data_def upload_begin_def post_readings_eq
      upload_end_def upload_failed_def split: sum.splits)

text \<open>
  A cycle that returns a snapshot ran the upload without an exception, got a status,
  and built the snapshot from the state the two calls left.
\<close>

lemma async_update_data_success:
  assumes "async_update_data net now_up now1 now2 s = (Inr snapshot, s')"
  shows "\<exists>status s2. build_snapshot status now1 now2 s2 = (Inr snapshot, s'\<lparr>data := data s2\<rparr>)
           \<and> readings_today_date s2 = readings_today_date s
           \<and> post_calls s2 = post_calls (snd (async_upload_buffered_data net now_up s))
           \<and> last_upload s2 = last_upload (snd (async_upload_buffered_data net now_up s))
           \<and> data s' = Some snapshot"
proof -
  obtain ex s1 where up: "async_upload_buffered_data net now_up s = (ex, s1)"
    by (cases "async_upload_buffered_data net now_up s")
  with assms have ex: "ex = None"
    by (cases ex) (simp_all add: async_update_data_def)
  from up have d1: "readings_today_date s1 = readings_today_date s"
    using upload_keeps_date[of net now_up s] by simp
  let ?s2 = "s1\<lparr>requests := requests s1 @ snd (snd (async_get_status (api_client s1) net))\<rparr>"
  obtain status where st: "fst (async_get_status (api_client s1) net) = Inr status"
    using assms up ex
    by (cases "fst (async_get_status (api_client s1) net)")
       (simp_all add: async_update_data_def get_status_eq)
  obtain r s3 where bs: "build_snapshot status now1 now2 ?s2 = (r, s3)"
    by (cases "build_snapshot status now1 now2 ?s2")
  from assms up ex st bs have eq: "r = Inr snapshot" "s' = s3\<lparr>data := Some snapshot\<rparr>"
    by (cases r; auto simp: async_update_data_def get_status_eq)+
  have "data s3 = data ?s2" using bs build_snapshot_frame(1)[of status now1 now2 ?s2] by simp
  then have "s'\<lparr>data := data ?s2\<rparr> = s3" using eq by simp
  with bs eq d1 up show ?thesis by (intro exI[of _ status] exI[of _ ?s2]) simp
qed

lemma async_update_data_failure:
  assumes "async_update_data net now_up now1 now2 s = (Inl err, s')"
  shows "data s' = data s"
proof -
  obtain ex s1 where up: "async_upload_buffered_data net now_up s = (ex, s1)"
    by (cases "async_upload_buffered_data net now_up s")
  then have d1: "data s1 = data s" using upload_keeps_data[of net now_up s] by simp
  show ?thesis
  proof (cases ex)
    case (Some e)
    with assms up d1 show ?thesis by (auto simp: async_update_data_def)
  next
    case None
    show ?thesis
    proof (cases "fst (async_get_status (api_client s1) net)")
      case (Inl e)
      with assms up d1 None show ?thesis
        by (auto simp: async_update_data_def get_status_eq)
    next
      case (Inr status)
      let ?s2 = "s1\<lparr>requests := requests s1 @ snd (snd (async_get_status (api_client s1) net))\<rparr>"
      obtain r s3 where bs: "build_snapshot status now1 now2 ?s2 = (r, s3)"
        by (cases "build_snapshot status now1 now2 ?s2")
      have "data s3 = data ?s2" using bs build_snapshot_frame(1)[of status now1 now2 ?s2] by simp
      with assms up d1 None Inr bs show ?thesis
        by (cases r) (auto simp: async_update_data_def get_status_eq)
    qed
  qed
qed

lemma data_start_upload: "data (start_upload who s) = data s"
  by (cases "data_buffer s = []"; cases "authenticated (api_client s)")
     (simp_all add: start_upload_empty start_upload_nonempty start_upload_unauthenticated
        after_upload_frame)

lemma data_finish_upload: "data (finish_upload i out now s) = data s"
proof (cases "i < length (in_flight s)")
  case False
  then show ?thesis by (simp add: finish_upload_def)
next
  case True
  obtain who rs where ith: "in_flight s ! i = (who, rs)" by (cases "in_flight s ! i")
  show ?thesis
    by (simp add: finish_upload_eq[OF True ith] upload_end_def upload_failed_def
        after_upload_frame split: sum.splits)
qed

lemma data_finish_status:
  "data (finish_status out now1 now2 s) = data s
   \<or> (\<exists>status s1 snapshot s2. build_snapshot status now1 now2 s1 = (Inr snapshot, s2)
         \<and> data (finish_status out now1 now2 s) = Some snapshot)"
proof (cases "awaiting_status s = 0")
  case True
  then show ?thesis by (simp add: finish_status_def)
next
  case False
  let ?s0 = "s\<lparr>awaiting_status := awaiting_status s - 1\<rparr>"
  show ?thesis
  proof (cases "json_response out")
    case (Inl e)
    with False show ?thesis by (simp add: finish_status_def Let_def)
  next
    case (Inr status)
    obtain r s2 where bs: "build_snapshot status now1 now2 ?s0 = (r, s2)"
      by (cases "build_snapshot status now1 now2 ?s0")
    have d: "data s2 = data s" using bs build_snapshot_frame(1)[of status now1 now2 ?s0] by simp
    show ?thesis
    proof (cases r)
      case (Inl e)
      with False Inr bs d show ?thesis by (simp add: finish_status_def Let_def)
    next
      case inr: (Inr snapshot)
      with False Inr bs have "data (finish_status out now1 now2 s) = Some snapshot"
        by (simp add: finish_status_def Let_def)
      with bs inr show ?thesis by blast
    qed
  qed
qed

lemma synced_step:
  assumes "\<forall>d. data s = Some d \<longrightarrow>
     map_of d ''connected'' = Some (PBool True) \<and> map_of d ''sync_status'' = Some (PStr ''synced'')"
  shows "\<forall>d. data (step a s) = Some d \<longrightarrow>
     map_of d ''connected'' = Some (PBool True) \<and> map_of d ''sync_status'' = Some (PStr ''synced'')"
proof (cases a)
  case (StateChange ev)
  with assms show ?thesis by (simp add: handle_state_change_frame)
next
  case DebounceElapsed
  with assms show ?thesis by (simp add: data_start_upload)
next
  case RefreshStart
  with assms show ?thesis by (simp add: data_start_upload)
next
  case (PostReturns i out now)
  with assms show ?thesis by (simp add: data_finish_upload)
next
  case (StatusReturns out now1 now2)
  with assms data_finish_status[of out now1 now2 s] show ?thesis
    by (auto dest: build_snapshot_fields(1,2))
qed

lemma synced_run:
  "\<forall>d. data s = Some d \<longrightarrow>
     map_of d ''connected'' = Some (PBool True) \<and> map_of d ''sync_status'' = Some (PStr ''synced'')
   \<Longrightarrow> \<forall>d. data (run tr s) = Some d \<longrightarrow>
     map_of d ''connected'' = Some (PBool True) \<and> map_of d ''sync_status'' = Some (PStr ''synced'')"
proof (induction tr arbitrary: s)
  case Nil
  then show ?case by simp
next
  case (Cons a tr)
  have "\<forall>d. data (step a s) = Some d \<longrightarrow>
     map_of d ''connected'' = Some (PBool True) \<and> map_of d ''sync_status'' = Some (PStr ''synced'')"
    by (rule synced_step[OF Cons.prems])
  from Cons.IH[OF this] show ?case by simp
qed

section \<open>The upload task and the uploads in flight\<close>

text \<open>
  While the task awaits the outcome of its upload, exactly one upload in flight is
  its own; at any other time none is.
\<close>

lemma filter_remove_nth:
  assumes "i < length xs"
  shows "length (filter P (take i xs @ drop (Suc i) xs)) + (if P (xs ! i) then 1 else 0)
         = length (filter P xs)"
proof -
  have "xs = take i xs @ xs ! i # drop (Suc i) xs"
    using assms by (rule id_take_nth_drop)
  then have "length (filter P xs)
      = length (filter P (take i xs @ xs ! i # drop (Suc i) xs))" by simp
  then show ?thesis by simp
qed

lemma task_uploads_frame:
  "task_uploads (after_upload who ex s) = task_uploads s"
  "task_uploads (handle_state_change ev s) = task_uploads s"
  by (simp_all add: task_uploads_def after_upload_frame handle_state_change_frame)

lemma task_inv_state_change:
  assumes "length (task_uploads s) = (if upload_task s = Some Uploading then 1 else 0)"
  shows "length (task_uploads (handle_state_change ev s))
         = (if upload_task (handle_state_change ev s) = Some Uploading then 1 else 0)"
proof -
  have "upload_task (handle_state_change ev s) = Some Uploading \<longleftrightarrow> upload_task s = Some Uploading"
    by (auto simp: handle_state_change_def schedule_upload_def split: option.splits task.splits)
  with assms show ?thesis by (simp add: task_uploads_frame)
qed

lemma task_inv_refresh:
  assumes "length (task_uploads s) = (if upload_task s = Some Uploading then 1 else 0)"
  shows "length (task_uploads (start_upload UpdateData s))
         = (if upload_task (start_upload UpdateData s) = Some Uploading then 1 else 0)"
proof -
  have "task_uploads (start_upload UpdateData s) = task_uploads s"
    "upload_task (start_upload UpdateData s) = upload_task s"
    by (cases "data_buffer s = []"; cases "authenticated (api_client s)";
        simp add: start_upload_empty start_upload_nonempty start_upload_unauthenticated
          task_uploads_frame after_upload_task; simp add: task_uploads_def)+
  with assms show ?thesis by simp
qed

lemma task_inv_debounce:
  assumes "length (task_uploads s) = (if upload_task s = Some Uploading then 1 else 0)"
    and "upload_task s = Some Sleeping"
  shows "length (task_uploads (start_upload DebouncedUpload (s\<lparr>upload_task := Some Uploading\<rparr>)))
         = (if upload_task (start_upload DebouncedUpload (s\<lparr>upload_task := Some Uploading\<rparr>))
               = Some Uploading then 1 else 0)"
proof -
  let ?s = "s\<lparr>upload_task := Some Uploading\<rparr>"
  from assms have "length (task_uploads s) = 0" by simp
  then have z: "filter (\<lambda>x. fst x = DebouncedUpload) (in_flight s) = []"
    by (simp add: task_uploads_def)
  show ?thesis
  proof (cases "data_buffer s \<noteq> [] \<and> authenticated (api_client s)")
    case True
    then have ne: "data_buffer ?s \<noteq> []" and au: "authenticated (api_client ?s)" by simp_all
    have "in_flight (start_upload DebouncedUpload ?s)
        = in_flight s @ [(DebouncedUpload, data_buffer s)]"
      "upload_task (start_upload DebouncedUpload ?s) = Some Uploading"
      by (simp_all add: start_upload_nonempty[OF ne au])
    with z show ?thesis by (simp add: task_uploads_def)
  next
    case False
    have fin: "upload_task (start_upload DebouncedUpload ?s) = Some Finished
        \<and> in_flight (start_upload DebouncedUpload ?s) = in_flight s"
    proof (cases "data_buffer s = []")
      case True
      then show ?thesis
        by (simp add: start_upload_empty after_upload_task after_upload_frame)
    next
      case ne: False
      with False have "data_buffer ?s \<noteq> []" "\<not> authenticated (api_client ?s)" by simp_all
      then show ?thesis
        by (simp add: start_upload_unauthenticated after_upload_task after_upload_frame)
    qed
    with z show ?thesis by (simp add: task_uploads_def)
  qed
qed

lemma finish_upload_in_flight:
  assumes "i < length (in_flight s)"
  shows "in_flight (finish_upload i out now s) = take i (in_flight s) @ drop (Suc i) (in_flight s)"
proof -
  obtain who rs where ith: "in_flight s ! i = (who, rs)" by (cases "in_flight s ! i")
  show ?thesis
    by (simp add: finish_upload_eq[OF assms ith] upload_end_def upload_failed_def
        after_upload_frame split: sum.splits)
qed

lemma finish_upload_task:
  assumes "i < length (in_flight s)" and "in_flight s ! i = (who, rs)"
  shows "upload_task (finish_upload i out now s)
         = (if who = DebouncedUpload then Some Finished else upload_task s)"
  by (cases who)
     (simp_all add: finish_upload_eq[OF assms] upload_end_def upload_failed_def
        after_upload_task split: sum.splits)

lemma task_inv_finish_upload:
  assumes inv: "length (task_uploads s) = (if upload_task s = Some Uploading then 1 else 0)"
  shows "length (task_uploads (finish_upload i out now s))
         = (if upload_task (finish_upload i out now s) = Some Uploading then 1 else 0)"
proof (cases "i < length (in_flight s)")
  case False
  with inv show ?thesis by (simp add: finish_upload_def)
next
  case True
  obtain who rs where ith: "in_flight s ! i = (who, rs)" by (cases "in_flight s ! i")
  from filter_remove_nth[OF True, of "\<lambda>x. fst x = DebouncedUpload"] ith
  have cnt: "length (task_uploads (finish_upload i out now s))
      + (if who = DebouncedUpload then 1 else 0) = length (task_uploads s)"
    by (simp add: task_uploads_def finish_upload_in_flight[OF True])
  show ?thesis
  proof (cases who)
    case DebouncedUpload
    with cnt inv have "length (task_uploads (finish_upload i out now s)) = 0"
      by (simp split: if_splits)
    with DebouncedUpload show ?thesis by (simp add: finish_upload_task[OF True ith])
  next
    case UpdateData
    with cnt inv show ?thesis by (simp add: finish_upload_task[OF True ith])
  qed
qed

lemma finish_status_frame:
  "in_flight (finish_status out now1 now2 s) = in_flight s"
  "upload_task (finish_status out now1 now2 s) = upload_task s"
  "tasks_created (finish_status out now1 now2 s) = tasks_created s"
  "post_started (finish_status out now1 now2 s) = post_started s"
  "api_client (finish_status out now1 now2 s) = api_client s"
  "requests (finish_status out now1 now2 s) = requests s"
  "data_buffer (finish_status out now1 now2 s) = data_buffer s"
  by (simp_all add: finish_status_def build_snapshot_def Let_def split: sum.splits jsonval.splits)

lemma task_inv_step:
  assumes "length (task_uploads s) = (if upload_task s = Some Uploading then 1 else 0)"
  shows "length (task_uploads (step a s))
         = (if upload_task (step a s) = Some Uploading then 1 else 0)"
proof (cases a)
  case (StateChange ev)
  with task_inv_state_change[OF assms] show ?thesis by simp
next
  case DebounceElapsed
  show ?thesis
  proof (cases "upload_task s = Some Sleeping")
    case True
    with DebounceElapsed task_inv_debounce[OF assms True] show ?thesis by simp
  next
    case False
    with DebounceElapsed assms show ?thesis by simp
  qed
next
  case RefreshStart
  with task_inv_refresh[OF assms] show ?thesis by simp
next
  case (PostReturns i out now)
  with task_inv_finish_upload[OF assms] show ?thesis by simp
next
  case (StatusReturns out now1 now2)
  with assms show ?thesis by (simp add: finish_status_frame task_uploads_def)
qed

lemma task_inv_run:
  "length (task_uploads s) = (if upload_task s = Some Uploading then 1 else 0) \<Longrightarrow>
   length (task_uploads (run tr s)) = (if upload_task (run tr s) = Some Uploading then 1 else 0)"
proof (induction tr arbitrary: s)
  case Nil
  then show ?case by simp
next
  case (Cons a tr)
  from Cons.IH[OF task_inv_step[OF Cons.prems, of a]] show ?case by simp
qed

lemma task_inv_reachable:
  "length (task_uploads (run tr (new_coordinator c)))
     = (if upload_task (run tr (new_coordinator c)) = Some Uploading then 1 else 0)"
  by (rule task_inv_run) (simp add: task_uploads_def new_coordinator_def)

section \<open>A window in which no upload starts\<close>

lemma finish_upload_frame_all:
  "post_started (finish_upload i out now s) = post_started s
   \<and> api_client (finish_upload i out now s) = api_client s
   \<and> tasks_created (finish_upload i out now s) = tasks_created s
   \<and> filter is_post_readings (requests (finish_upload i out now s))
       = filter is_post_readings (requests s)"
proof (cases "i < length (in_flight s)")
  case False
  then show ?thesis by (simp add: finish_upload_def)
next
  case True
  obtain who rs where ith: "in_flight s ! i = (who, rs)" by (cases "in_flight s ! i")
  show ?thesis
    by (simp add: finish_upload_eq[OF True ith] upload_end_def upload_failed_def
        after_upload_frame after_upload_requests split: sum.splits)
qed

lemma finish_upload_frame:
  "post_started (finish_upload i out now s) = post_started s"
  "api_client (finish_upload i out now s) = api_client s"
  "tasks_created (finish_upload i out now s) = tasks_created s"
  "filter is_post_readings (requests (finish_upload i out now s))
     = filter is_post_readings (requests s)"
  using finish_upload_frame_all[of i out now s] by simp_all

lemma finish_upload_buffer:
  "mset (data_buffer s) \<subseteq># mset (data_buffer (finish_upload i out now s))"
proof (cases "i < length (in_flight s)")
  case False
  then show ?thesis by (simp add: finish_upload_def)
next
  case True
  obtain who rs where ith: "in_flight s ! i = (who, rs)" by (cases "in_flight s ! i")
  show ?thesis
    by (simp add: finish_upload_eq[OF True ith] upload_end_def upload_failed_def
        after_upload_frame split: sum.splits)
qed

text \<open>
  One step that starts no upload, where no upload in flight is the task's: nothing is
  taken out of the buffer, no call of \<open>async_post_readings\<close> is made, and the task
  changes only when a state change is buffered while none is pending.
\<close>

lemma quiet_step:
  assumes "\<not> starts_upload a" and "task_uploads s = []"
  shows "task_uploads (step a s) = []"
    and "post_started (step a s) = post_started s"
    and "api_client (step a s) = api_client s"
    and "filter is_post_readings (requests (step a s)) = filter is_post_readings (requests s)"
    and "mset (data_buffer s) + mset (buffered_by a) \<subseteq># mset (data_buffer (step a s))"
    and "upload_task s = Some Sleeping \<Longrightarrow>
           upload_task (step a s) = Some Sleeping \<and> tasks_created (step a s) = tasks_created s"
    and "upload_task s = None \<or> upload_task s = Some Finished \<Longrightarrow> buffered_by a = [] \<Longrightarrow>
           upload_task (step a s) = upload_task s \<and> tasks_created (step a s) = tasks_created s"
    and "upload_task s = None \<or> upload_task s = Some Finished \<Longrightarrow> buffered_by a \<noteq> [] \<Longrightarrow>
           upload_task (step a s) = Some Sleeping \<and> tasks_created (step a s) = tasks_created s + 1"
proof -
  have all: "task_uploads (step a s) = []
    \<and> post_started (step a s) = post_started s
    \<and> api_client (step a s) = api_client s
    \<and> filter is_post_readings (requests (step a s)) = filter is_post_readings (requests s)
    \<and> mset (data_buffer s) + mset (buffered_by a) \<subseteq># mset (data_buffer (step a s))
    \<and> (upload_task s = Some Sleeping \<longrightarrow>
           upload_task (step a s) = Some Sleeping \<and> tasks_created (step a s) = tasks_created s)
    \<and> ((upload_task s = None \<or> upload_task s = Some Finished) \<and> buffered_by a = [] \<longrightarrow>
           upload_task (step a s) = upload_task s \<and> tasks_created (step a s) = tasks_created s)
    \<and> ((upload_task s = None \<or> upload_task s = Some Finished) \<and> buffered_by a \<noteq> [] \<longrightarrow>
           upload_task (step a s) = Some Sleeping \<and> tasks_created (step a s) = tasks_created s + 1)"
  proof (cases a)
    case (StateChange ev)
    show ?thesis
    proof (cases "data_new_state ev")
      case None
      with StateChange assms(2) show ?thesis by (simp add: handle_state_change_dropped)
    next
      case (Some ns)
      with StateChange assms(2) show ?thesis
        by (auto simp: task_uploads_frame handle_state_change_frame handle_state_change_buffer
            handle_state_change_pending[of s Sleeping] handle_state_change_idle)
    qed
  next
    case DebounceElapsed
    with assms(1) show ?thesis by simp
  next
    case RefreshStart
    with assms(1) show ?thesis by simp
  next
    case (PostReturns i out now)
    show ?thesis
    proof (cases "i < length (in_flight s)")
      case False
      with PostReturns assms(2) show ?thesis by (simp add: finish_upload_def)
    next
      case True
      obtain who rs where ith: "in_flight s ! i = (who, rs)" by (cases "in_flight s ! i")
      from True have "in_flight s ! i \<in> set (in_flight s)" by simp
      with assms(2) ith have who: "who = UpdateData"
        by (cases who) (auto simp: task_uploads_def filter_empty_conv)
      from filter_remove_nth[OF True, of "\<lambda>x. fst x = DebouncedUpload"] assms(2)
      have "task_uploads (finish_upload i out now s) = []"
        by (simp add: task_uploads_def finish_upload_in_flight[OF True])
      with PostReturns who show ?thesis
        by (simp add: finish_upload_frame finish_upload_buffer finish_upload_task[OF True ith])
    qed
  next
    case (StatusReturns out now1 now2)
    with assms(2) show ?thesis by (simp add: finish_status_frame task_uploads_def)
  qed
  from all show "task_uploads (step a s) = []"
    and "post_started (step a s) = post_started s"
    and "api_client (step a s) = api_client s"
    and "filter is_post_readings (requests (step a s)) = filter is_post_readings (requests s)"
    and "mset (data_buffer s) + mset (buffered_by a) \<subseteq># mset (data_buffer (step a s))"
    and "upload_task s = Some Sleeping \<Longrightarrow>
           upload_task (step a s) = Some Sleeping \<and> tasks_created (step a s) = tasks_created s"
    and "upload_task s = None \<or> upload_task s = Some Finished \<Longrightarrow> buffered_by a = [] \<Longrightarrow>
           upload_task (step a s) = upload_task s \<and> tasks_created (step a s) = tasks_created s"
    and "upload_task s = None \<or> upload_task s = Some Finished \<Longrightarrow> buffered_by a \<noteq> [] \<Longrightarrow>
           upload_task (step a s) = Some Sleeping \<and> tasks_created (step a s) = tasks_created s + 1"
    by blast+
qed

lemma quiet_run_frame:
  assumes "\<forall>a\<in>set tr. \<not> starts_upload a" and "task_uploads s = []"
  shows "task_uploads (run tr s) = []
       \<and> post_started (run tr s) = post_started s
       \<and> api_client (run tr s) = api_client s
       \<and> filter is_post_readings (requests (run tr s)) = filter is_post_readings (requests s)
       \<and> mset (data_buffer s) + mset (buffered_in tr) \<subseteq># mset (data_buffer (run tr s))"
  using assms
proof (induction tr arbitrary: s)
  case Nil
  then show ?case by (simp add: buffered_in_def)
next
  case (Cons a tr)
  from Cons.prems have q: "\<not> starts_upload a" and qs: "\<forall>a\<in>set tr. \<not> starts_upload a" by simp_all
  note st = quiet_step[OF q Cons.prems(2)]
  from Cons.IH[OF qs st(1)] have ih:
    "task_uploads (run tr (step a s)) = []"
    "post_started (run tr (step a s)) = post_started (step a s)"
    "api_client (run tr (step a s)) = api_client (step a s)"
    "filter is_post_readings (requests (run tr (step a s)))
       = filter is_post_readings (requests (step a s))"
    "mset (data_buffer (step a s)) + mset (buffered_in tr) \<subseteq># mset (data_buffer (run tr (step a s)))"
    by simp_all
  have c: "mset (data_buffer s) + mset (buffered_by a) + mset (buffered_in tr)
      \<subseteq># mset (data_buffer (step a s)) + mset (buffered_in tr)"
    using st(5) by (rule mset_subset_eq_mono_add) simp
  have d: "mset (data_buffer s) + mset (buffered_by a) + mset (buffered_in tr)
      \<subseteq># mset (data_buffer (run tr (step a s)))"
    using c ih(5) by (rule subset_mset.order_trans)
  have e: "mset (data_buffer s) + mset (buffered_in (a # tr))
      = mset (data_buffer s) + mset (buffered_by a) + mset (buffered_in tr)"
    by (simp add: buffered_in_def)
  have "mset (data_buffer s) + mset (buffered_in (a # tr))
      \<subseteq># mset (data_buffer (run (a # tr) s))"
    unfolding e using d by simp
  with ih st(2,3,4) show ?case by simp
qed

lemma quiet_run_sleeping:
  assumes "\<forall>a\<in>set tr. \<not> starts_upload a" and "task_uploads s = []"
    and "upload_task s = Some Sleeping"
  shows "upload_task (run tr s) = Some Sleeping \<and> tasks_created (run tr s) = tasks_created s"
  using assms
proof (induction tr arbitrary: s)
  case Nil
  then show ?case by simp
next
  case (Cons a tr)
  from Cons.prems have q: "\<not> starts_upload a" and qs: "\<forall>a\<in>set tr. \<not> starts_upload a" by simp_all
  note st = quiet_step[OF q Cons.prems(2)]
  from st(6)[OF Cons.prems(3)] Cons.IH[OF qs st(1)] show ?case by simp
qed

lemma quiet_run_idle:
  assumes "\<forall>a\<in>set tr. \<not> starts_upload a" and "task_uploads s = []"
    and "upload_task s = None \<or> upload_task s = Some Finished"
    and "buffered_in tr \<noteq> []"
  shows "upload_task (run tr s) = Some Sleeping \<and> tasks_created (run tr s) = tasks_created s + 1"
  using assms
proof (induction tr arbitrary: s)
  case Nil
  then show ?case by (simp add: buffered_in_def)
next
  case (Cons a tr)
  from Cons.prems have q: "\<not> starts_upload a" and qs: "\<forall>a\<in>set tr. \<not> starts_upload a" by simp_all
  note st = quiet_step[OF q Cons.prems(2)]
  show ?case
  proof (cases "buffered_by a = []")
    case True
    from st(7)[OF Cons.prems(3) True] Cons.prems(3)
    have idle: "upload_task (step a s) = None \<or> upload_task (step a s) = Some Finished"
      and tc: "tasks_created (step a s) = tasks_created s" by auto
    from True Cons.prems(4) have "buffered_in tr \<noteq> []" by (simp add: buffered_in_def)
    from Cons.IH[OF qs st(1) idle this] tc show ?thesis by simp
  next
    case False
    from st(8)[OF Cons.prems(3) False]
    have sl: "upload_task (step a s) = Some Sleeping"
      and tc: "tasks_created (step a s) = tasks_created s + 1" by simp_all
    from quiet_run_sleeping[OF qs st(1) sl] tc show ?thesis by simp
  qed
qed

section \<open>Claims about the API client\<close>




text \<open>
  C8. For \<open>async_post_readings\<close> and \<open>async_get_status\<close> alike: with the token or the
  instance id unset (\<open>None\<close>, or empty) the call raises \<open>AuthenticationError\<close> and issues
  no request. With both set it issues exactly one request, and a 401 raises
  \<open>AuthenticationError\<close>, a timeout or transport error raises \<open>CannotConnect\<close>, and any
  other status that is not 200 raises the generic \<open>GreenEnergyApiError\<close>.
\<close>

theorem auth_precondition_and_error_mapping:
  "(\<not> truthy (token c) \<or> \<not> truthy (instance_id c) \<longrightarrow>
       async_post_readings c readings net = (Inl AuthenticationError, c, [])
     \<and> async_get_status c net = (Inl AuthenticationError, c, []))
   \<and> (token c = PNone \<or> instance_id c = PNone \<longrightarrow>
       async_post_readings c readings net = (Inl AuthenticationError, c, [])
     \<and> async_get_status c net = (Inl AuthenticationError, c, []))
   \<and> (truthy (token c) \<and> truthy (instance_id c) \<longrightarrow>
        snd (async_post_readings c readings net) = (c, [readings_request c readings])
      \<and> snd (async_get_status c net) = (c, [status_request c])
      \<and> ((\<exists>b. net (readings_request c readings) = Response 401 b) \<longrightarrow>
            fst (async_post_readings c readings net) = Inl AuthenticationError)
      \<and> ((\<exists>b. net (status_request c) = Response 401 b) \<longrightarrow>
            fst (async_get_status c net) = Inl AuthenticationError)
      \<and> (net (readings_request c readings) = TimeoutError
            \<or> net (readings_request c readings) = ClientError \<longrightarrow>
            fst (async_post_readings c readings net) = Inl CannotConnect)
      \<and> (net (status_request c) = TimeoutError \<or> net (status_request c) = ClientError \<longrightarrow>
            fst (async_get_status c net) = Inl CannotConnect)
      \<and> ((\<exists>st b. net (readings_request c readings) = Response st b \<and> st \<noteq> 200 \<and> st \<noteq> 401) \<longrightarrow>
            fst (async_post_readings c readings net) = Inl GreenEnergyApiError)
      \<and> ((\<exists>st b. net (status_request c) = Response st b \<and> st \<noteq> 200 \<and> st \<noteq> 401) \<longrightarrow>
            fst (async_get_status c net) = Inl GreenEnergyApiError))"
  unfolding async_post_readings_def async_get_status_def Let_def json_response_def
  by (auto split: net_outcome.splits body.splits)

theorem auth_precondition_and_error_mapping_witness:
  "async_post_readings ex_unpaired [ex_reading1] (\<lambda>rq. ex_ok) = (Inl AuthenticationError, ex_unpaired, [])
   \<and> async_get_status ex_unpaired (\<lambda>rq. ex_ok) = (Inl AuthenticationError, ex_unpaired, [])
   \<and> truthy (token ex_client) \<and> truthy (instance_id ex_client)
   \<and> snd (async_post_readings ex_client [ex_reading1] (\<lambda>rq. Response 401 Unreadable))
       = (ex_client, [readings_request ex_client [ex_reading1]])
   \<and> fst (async_post_readings ex_client [ex_reading1] (\<lambda>rq. Response 401 Unreadable))
       = Inl AuthenticationError
   \<and> fst (async_get_status ex_client (\<lambda>rq. Response 401 Unreadable)) = Inl AuthenticationError
   \<and> fst (async_post_readings ex_client [ex_reading1] (\<lambda>rq. TimeoutError)) = Inl CannotConnect
   \<and> fst (async_get_status ex_client (\<lambda>rq. ClientError)) = Inl CannotConnect
   \<and> fst (async_post_readings ex_client [ex_reading1] (\<lambda>rq. Response 500 Unreadable))
       = Inl GreenEnergyApiError
   \<and> fst (async_get_status ex_client (\<lambda>rq. Response 404 Unreadable)) = Inl GreenEnergyApiError"
proof -
  have un: "token ex_unpaired = PNone" by (simp add: ex_defs client_defs)
  have tr: "truthy (token ex_client) \<and> truthy (instance_id ex_client)"
    by (simp add: ex_defs client_defs)
  from auth_precondition_and_error_mapping[of ex_unpaired "[ex_reading1]" "\<lambda>rq. ex_ok"] un
  have "async_post_readings ex_unpaired [ex_reading1] (\<lambda>rq. ex_ok)
          = (Inl AuthenticationError, ex_unpaired, [])
      \<and> async_get_status ex_unpaired (\<lambda>rq. ex_ok) = (Inl AuthenticationError, ex_unpaired, [])"
    by simp
  moreover from auth_precondition_and_error_mapping[of ex_client "[ex_reading1]"
      "\<lambda>rq. Response 401 Unreadable"] tr
  have "snd (async_post_readings ex_client [ex_reading1] (\<lambda>rq. Response 401 Unreadable))
       = (ex_client, [readings_request ex_client [ex_reading1]])
     \<and> fst (async_post_readings ex_client [ex_reading1] (\<lambda>rq. Response 401 Unreadable))
       = Inl AuthenticationError
     \<and> fst (async_get_status ex_client (\<lambda>rq. Response 401 Unreadable)) = Inl AuthenticationError"
    by simp
  moreover from auth_precondition_and_error_mapping[of ex_client "[ex_reading1]" "\<lambda>rq. TimeoutError"] tr
  have "fst (async_post_readings ex_client [ex_reading1] (\<lambda>rq. TimeoutError)) = Inl CannotConnect"
    by simp
  moreover from auth_precondition_and_error_mapping[of ex_client "[]" "\<lambda>rq. ClientError"] tr
  have "fst (async_get_status ex_client (\<lambda>rq. ClientError)) = Inl CannotConnect"
    by simp
  moreover from auth_precondition_and_error_mapping[of ex_client "[ex_reading1]"
      "\<lambda>rq. Response 500 Unreadable"] tr
  have "fst (async_post_readings ex_client [ex_reading1] (\<lambda>rq. Response 500 Unreadable))
       = Inl GreenEnergyApiError"
    by simp
  moreover from auth_precondition_and_error_mapping[of ex_client "[]" "\<lambda>rq. Response 404 Unreadable"] tr
  have "fst (async_get_status ex_client (\<lambda>rq. Response 404 Unreadable)) = Inl GreenEnergyApiError"
    by simp
  ultimately show ?thesis using tr by simp
qed

text \<open>
  C10. When \<open>async_unpair\<close> returns \<open>True\<close>, the response was a 200 and the client is
  the one it was: its token and instance id are unchanged, not \<open>None\<close> and not empty.
  Every later \<open>async_post_readings\<close>, \<open>async_get_status\<close> or \<open>async_unpair\<close> on it
  therefore issues its request, whatever the network then answers.
\<close>

theorem unpair_keeps_credentials:
  "async_unpair c net = (Inr True, c', rqs) \<Longrightarrow>
     c' = c \<and> token c' \<noteq> PNone \<and> instance_id c' \<noteq> PNone
     \<and> truthy (token c') \<and> truthy (instance_id c')
     \<and> (\<exists>b. net (unpair_request c) = Response 200 b)
     \<and> rqs = [unpair_request c]
     \<and> snd (snd (async_post_readings c' readings net')) = [readings_request c' readings]
     \<and> snd (snd (async_get_status c' net')) = [status_request c']
     \<and> snd (snd (async_unpair c' net')) = [unpair_request c']"
  unfolding async_unpair_def async_post_readings_def async_get_status_def Let_def
  by (auto split: net_outcome.splits if_splits)

theorem unpair_keeps_credentials_witness:
  "async_unpair ex_client (\<lambda>rq. ex_ok) = (Inr True, ex_client, [unpair_request ex_client])
   \<and> token ex_client = PStr ''t1'' \<and> instance_id ex_client = PStr ''i1''
   \<and> snd (snd (async_post_readings ex_client [ex_reading1] (\<lambda>rq. TimeoutError)))
       = [readings_request ex_client [ex_reading1]]
   \<and> snd (snd (async_get_status ex_client (\<lambda>rq. TimeoutError))) = [status_request ex_client]
   \<and> snd (snd (async_unpair ex_client (\<lambda>rq. TimeoutError))) = [unpair_request ex_client]"
proof -
  have un: "async_unpair ex_client (\<lambda>rq. ex_ok) = (Inr True, ex_client, [unpair_request ex_client])"
    by (simp add: ex_defs client_defs)
  have "token ex_client = PStr ''t1''" "instance_id ex_client = PStr ''i1''"
    by (simp_all add: ex_defs client_defs)
  with unpair_keeps_credentials[OF un, of "[ex_reading1]" "\<lambda>rq. TimeoutError"] un
  show ?thesis by simp
qed

section \<open>Claims about the coordinator\<close>

text \<open>
  C2. A flush of a non-empty buffer calls \<open>async_post_readings\<close> once, with the whole
  buffer. If the call returns, \<open>readings_today\<close> grows by the size of the batch and the
  last-upload time is set to the clock. If it raises an API error, of whichever class,
  \<open>readings_today\<close> and the last-upload time stay as they were and the batch is in the
  buffer again, so the next flush takes it. The same holds when other steps ran while
  the call was in flight (second part, for the \<open>i\<close>-th upload in flight of any state
  and the outcome of its request), and for \<open>upload_end\<close> given any API error (third
  part).
\<close>

theorem flush_outcome:
  "(data_buffer s \<noteq> [] \<longrightarrow>
      (let batch = data_buffer s;
           result = fst (async_post_readings (api_client s) batch net);
           s' = snd (async_upload_buffered_data net now s)
       in post_calls s' = post_calls s @ [(batch, result)]
        \<and> (case result of
             Inr resp \<Rightarrow>
               readings_today s' = readings_today s + int (length batch)
               \<and> last_upload s' = Some now
           | Inl e \<Rightarrow>
               is_api_error e \<longrightarrow>
                 readings_today s' = readings_today s
               \<and> last_upload s' = last_upload s
               \<and> data_buffer s' = batch
               \<and> fst (upload_begin s') = Some batch)))
   \<and> (i < length (in_flight s) \<and> in_flight s ! i = (who, rs) \<and> rs \<noteq> [] \<longrightarrow>
      (let result = json_response out;
           s' = finish_upload i out now s
       in post_calls s' = post_calls s @ [(rs, result)]
        \<and> (case result of
             Inr resp \<Rightarrow>
               readings_today s' = readings_today s + int (length rs)
               \<and> last_upload s' = Some now
               \<and> data_buffer s' = data_buffer s
           | Inl e \<Rightarrow>
               is_api_error e \<longrightarrow>
                 readings_today s' = readings_today s
               \<and> last_upload s' = last_upload s
               \<and> data_buffer s' = data_buffer s @ rs
               \<and> fst (upload_begin s') = Some (data_buffer s @ rs))))
   \<and> (is_api_error err \<longrightarrow>
        fst (upload_end rs (Inl err) now s) = None
      \<and> readings_today (snd (upload_end rs (Inl err) now s)) = readings_today s
      \<and> last_upload (snd (upload_end rs (Inl err) now s)) = last_upload s
      \<and> data_buffer (snd (upload_end rs (Inl err) now s)) = data_buffer s @ rs)"
proof -
  have atomic: "data_buffer s \<noteq> [] \<longrightarrow>
      (let batch = data_buffer s;
           result = fst (async_post_readings (api_client s) batch net);
           s' = snd (async_upload_buffered_data net now s)
       in post_calls s' = post_calls s @ [(batch, result)]
        \<and> (case result of
             Inr resp \<Rightarrow>
               readings_today s' = readings_today s + int (length batch)
               \<and> last_upload s' = Some now
           | Inl e \<Rightarrow>
               is_api_error e \<longrightarrow>
                 readings_today s' = readings_today s
               \<and> last_upload s' = last_upload s
               \<and> data_buffer s' = batch
               \<and> fst (upload_begin s') = Some batch))"
    by (cases "fst (async_post_readings (api_client s) (data_buffer s) net)")
       (auto simp: async_upload_buffered_data_def upload_begin_def post_readings_eq
          upload_end_def upload_failed_def Let_def)
  have in_flight: "i < length (in_flight s) \<and> in_flight s ! i = (who, rs) \<and> rs \<noteq> [] \<longrightarrow>
      (let result = json_response out;
           s' = finish_upload i out now s
       in post_calls s' = post_calls s @ [(rs, result)]
        \<and> (case result of
             Inr resp \<Rightarrow>
               readings_today s' = readings_today s + int (length rs)
               \<and> last_upload s' = Some now
               \<and> data_buffer s' = data_buffer s
           | Inl e \<Rightarrow>
               is_api_error e \<longrightarrow>
                 readings_today s' = readings_today s
               \<and> last_upload s' = last_upload s
               \<and> data_buffer s' = data_buffer s @ rs
               \<and> fst (upload_begin s') = Some (data_buffer s @ rs)))"
  proof
    assume a: "i < length (in_flight s) \<and> in_flight s ! i = (who, rs) \<and> rs \<noteq> []"
    then have i: "i < length (in_flight s)" and ith: "in_flight s ! i = (who, rs)"
      and ne: "rs \<noteq> []" by simp_all
    show "(let result = json_response out;
           s' = finish_upload i out now s
       in post_calls s' = post_calls s @ [(rs, result)]
        \<and> (case result of
             Inr resp \<Rightarrow>
               readings_today s' = readings_today s + int (length rs)
               \<and> last_upload s' = Some now
               \<and> data_buffer s' = data_buffer s
           | Inl e \<Rightarrow>
               is_api_error e \<longrightarrow>
                 readings_today s' = readings_today s
               \<and> last_upload s' = last_upload s
               \<and> data_buffer s' = data_buffer s @ rs
               \<and> fst (upload_begin s') = Some (data_buffer s @ rs)))"
    proof (cases "json_response out")
      case (Inr resp)
      then show ?thesis
        by (simp add: finish_upload_returned[OF i ith Inr] after_upload_frame)
    next
      case (Inl e)
      show ?thesis
      proof (cases "is_api_error e")
        case True
        with Inl ne show ?thesis
          by (simp add: finish_upload_api_error[OF i ith Inl True] after_upload_frame
              upload_begin_def)
      next
        case False
        with Inl show ?thesis
          by (simp add: finish_upload_other_error[OF i ith Inl False] after_upload_frame)
      qed
    qed
  qed
  have "is_api_error err \<longrightarrow>
        fst (upload_end rs (Inl err) now s) = None
      \<and> readings_today (snd (upload_end rs (Inl err) now s)) = readings_today s
      \<and> last_upload (snd (upload_end rs (Inl err) now s)) = last_upload s
      \<and> data_buffer (snd (upload_end rs (Inl err) now s)) = data_buffer s @ rs"
    by (simp add: upload_end_api_error)
  with atomic in_flight show ?thesis by blast
qed

theorem flush_outcome_witness:
  "data_buffer ex_late_evening \<noteq> []
   \<and> readings_today ex_late_evening = 5
   \<and> fst (async_post_readings ex_client [ex_reading2] (\<lambda>rq. ex_ok)) = Inr (JObject [])
   \<and> readings_today (snd (async_upload_buffered_data (\<lambda>rq. ex_ok) ex_day2 ex_late_evening)) = 6
   \<and> last_upload (snd (async_upload_buffered_data (\<lambda>rq. ex_ok) ex_day2 ex_late_evening))
       = Some ex_day2
   \<and> fst (async_post_readings ex_client [ex_reading2] (\<lambda>rq. TimeoutError)) = Inl CannotConnect
   \<and> is_api_error CannotConnect
   \<and> readings_today (snd (async_upload_buffered_data (\<lambda>rq. TimeoutError) ex_day2 ex_late_evening)) = 5
   \<and> last_upload (snd (async_upload_buffered_data (\<lambda>rq. TimeoutError) ex_day2 ex_late_evening)) = None
   \<and> data_buffer (snd (async_upload_buffered_data (\<lambda>rq. TimeoutError) ex_day2 ex_late_evening))
       = [ex_reading2]
   \<and> data_buffer (finish_upload 0 (Response 500 Unreadable) ex_day2
        (run ex_two_in_flight (new_coordinator ex_client))) = [ex_reading1]
   \<and> readings_today (finish_upload 1 ex_ok ex_day2
        (run ex_two_in_flight (new_coordinator ex_client))) = 1"
proof -
  have ne: "data_buffer ex_late_evening \<noteq> []" "readings_today ex_late_evening = 5"
    "last_upload ex_late_evening = None" "data_buffer ex_late_evening = [ex_reading2]"
    "api_client ex_late_evening = ex_client"
    by (simp_all add: ex_late_evening_def new_coordinator_def)
  have ok: "fst (async_post_readings ex_client [ex_reading2] (\<lambda>rq. ex_ok)) = Inr (JObject [])"
    by (simp add: ex_defs client_defs)
  have ko: "fst (async_post_readings ex_client [ex_reading2] (\<lambda>rq. TimeoutError)) = Inl CannotConnect"
    by (simp add: ex_defs client_defs)
  let ?s = "run ex_two_in_flight (new_coordinator ex_client)"
  have fl: "in_flight ?s = [(UpdateData, [ex_reading1]), (DebouncedUpload, [ex_reading2])]"
    "data_buffer ?s = []" "readings_today ?s = 0"
    by (simp_all add: ex_defs client_defs coordinator_defs)
  have r5: "json_response (Response 500 Unreadable) = Inl GreenEnergyApiError"
    "json_response ex_ok = Inr (JObject [])"
    by (simp_all add: json_response_def response_json_def ex_ok_def)
  from flush_outcome[of ex_late_evening "\<lambda>rq. ex_ok" ex_day2] ne ok
  have "readings_today (snd (async_upload_buffered_data (\<lambda>rq. ex_ok) ex_day2 ex_late_evening)) = 6
   \<and> last_upload (snd (async_upload_buffered_data (\<lambda>rq. ex_ok) ex_day2 ex_late_evening))
       = Some ex_day2"
    by (simp add: Let_def)
  moreover from flush_outcome[of ex_late_evening "\<lambda>rq. TimeoutError" ex_day2] ne ko
  have "readings_today (snd (async_upload_buffered_data (\<lambda>rq. TimeoutError) ex_day2 ex_late_evening)) = 5
   \<and> last_upload (snd (async_upload_buffered_data (\<lambda>rq. TimeoutError) ex_day2 ex_late_evening)) = None
   \<and> data_buffer (snd (async_upload_buffered_data (\<lambda>rq. TimeoutError) ex_day2 ex_late_evening))
       = [ex_reading2]"
    by (simp add: Let_def)
  moreover from flush_outcome[where s="?s" and i=0 and who=UpdateData and rs="[ex_reading1]"
      and out="Response 500 Unreadable" and now=ex_day2] fl r5
  have "data_buffer (finish_upload 0 (Response 500 Unreadable) ex_day2 ?s) = [ex_reading1]"
    by (simp add: Let_def)
  moreover from flush_outcome[where s="?s" and i=1 and who=DebouncedUpload and rs="[ex_reading2]"
      and out=ex_ok and now=ex_day2] fl r5
  have "readings_today (finish_upload 1 ex_ok ex_day2 ?s) = 1"
    by (simp add: Let_def)
  ultimately show ?thesis using ne ok ko by simp
qed

text \<open>
  C3, as the claim states it, fails. \<open>except GreenEnergyApiError\<close> lets through what
  is not an API error, and by then the buffer has been cleared. Here the upload of an
  update cycle is answered with status 200 and a body that is not JSON:
  \<open>response.json()\<close> raises \<open>JSONDecodeError\<close>, and the reading is neither in the buffer
  nor in flight nor in an upload that returned.
\<close>

theorem batch_lost_on_malformed_answer:
  "buffered_in ex_lost_batch = [ex_reading1]
   \<and> post_calls (run ex_lost_batch (new_coordinator ex_client))
       = [([ex_reading1], Inl JSONDecodeError)]
   \<and> data_buffer (run ex_lost_batch (new_coordinator ex_client)) = []
   \<and> in_flight (run ex_lost_batch (new_coordinator ex_client)) = []
   \<and> uploaded (run ex_lost_batch (new_coordinator ex_client)) = []
   \<and> readings_today (run ex_lost_batch (new_coordinator ex_client)) = 0"
  by (simp add: ex_defs client_defs coordinator_defs buffered_in_def uploaded_def)

text \<open>
  C3, amended. Taking the snapshot copies the buffer and empties it in one step; with
  the request out, the upload waits in flight while state changes fill the fresh
  buffer and leave the snapshot alone. Over any run of steps, from any state, in which
  every call of \<open>async_post_readings\<close> that ends returns or raises an API error, the
  readings in the buffer, in the snapshots in flight and in the uploads that returned
  are those there at the start plus the readings buffered since, each as often as it
  was buffered: none is dropped and none is in more returned uploads than it was
  buffered. For a coordinator started afresh with nothing in flight, every reading
  buffered so far is then in the buffer or in an upload that returned.
\<close>

theorem snapshot_and_clear:
  "(data_buffer s \<noteq> [] \<longrightarrow>
       fst (upload_begin s) = Some (data_buffer s)
     \<and> data_buffer (snd (upload_begin s)) = [])
   \<and> (data_buffer s \<noteq> [] \<and> authenticated (api_client s) \<longrightarrow>
       data_buffer (start_upload who s) = []
     \<and> in_flight (start_upload who s) = in_flight s @ [(who, data_buffer s)]
     \<and> data_buffer (run (map StateChange evs) (start_upload who s))
         = buffered_in (map StateChange evs)
     \<and> in_flight (run (map StateChange evs) (start_upload who s))
         = in_flight s @ [(who, data_buffer s)])
   \<and> ((\<forall>a\<in>set tr. handled a) \<longrightarrow>
       accounted (run tr s) = accounted s + mset (buffered_in tr)
     \<and> mset (data_buffer (run tr (new_coordinator c)))
         + mset (pending (run tr (new_coordinator c)))
         + mset (uploaded (run tr (new_coordinator c))) = mset (buffered_in tr)
     \<and> (in_flight (run tr (new_coordinator c)) = [] \<longrightarrow>
          mset (buffered_in tr)
            = mset (data_buffer (run tr (new_coordinator c)))
              + mset (uploaded (run tr (new_coordinator c)))))"
proof -
  have a0: "accounted (new_coordinator c) = {#}"
    by (simp add: accounted_def new_coordinator_def pending_def uploaded_def)
  have runs: "(\<forall>a\<in>set tr. handled a) \<longrightarrow>
       accounted (run tr s) = accounted s + mset (buffered_in tr)
     \<and> mset (data_buffer (run tr (new_coordinator c)))
         + mset (pending (run tr (new_coordinator c)))
         + mset (uploaded (run tr (new_coordinator c))) = mset (buffered_in tr)
     \<and> (in_flight (run tr (new_coordinator c)) = [] \<longrightarrow>
          mset (buffered_in tr)
            = mset (data_buffer (run tr (new_coordinator c)))
              + mset (uploaded (run tr (new_coordinator c))))"
  proof
    assume h: "\<forall>a\<in>set tr. handled a"
    have a1: "accounted (run tr (new_coordinator c)) = mset (buffered_in tr)"
      by (simp add: accounted_run[OF h] a0)
    have "in_flight (run tr (new_coordinator c)) = [] \<longrightarrow>
        mset (buffered_in tr)
          = mset (data_buffer (run tr (new_coordinator c)))
            + mset (uploaded (run tr (new_coordinator c)))"
      using a1 by (auto simp: accounted_def pending_def)
    moreover have "mset (data_buffer (run tr (new_coordinator c)))
       + mset (pending (run tr (new_coordinator c)))
       + mset (uploaded (run tr (new_coordinator c))) = mset (buffered_in tr)"
      using a1 by (simp add: accounted_def)
    ultimately show "accounted (run tr s) = accounted s + mset (buffered_in tr)
     \<and> mset (data_buffer (run tr (new_coordinator c)))
         + mset (pending (run tr (new_coordinator c)))
         + mset (uploaded (run tr (new_coordinator c))) = mset (buffered_in tr)
     \<and> (in_flight (run tr (new_coordinator c)) = [] \<longrightarrow>
          mset (buffered_in tr)
            = mset (data_buffer (run tr (new_coordinator c)))
              + mset (uploaded (run tr (new_coordinator c))))"
      by (simp add: accounted_run[OF h])
  qed
  have snap: "data_buffer s \<noteq> [] \<longrightarrow>
       fst (upload_begin s) = Some (data_buffer s)
     \<and> data_buffer (snd (upload_begin s)) = []"
    by (simp add: upload_begin_def)
  have "data_buffer s \<noteq> [] \<and> authenticated (api_client s) \<longrightarrow>
       data_buffer (start_upload who s) = []
     \<and> in_flight (start_upload who s) = in_flight s @ [(who, data_buffer s)]
     \<and> data_buffer (run (map StateChange evs) (start_upload who s))
         = buffered_in (map StateChange evs)
     \<and> in_flight (run (map StateChange evs) (start_upload who s))
         = in_flight s @ [(who, data_buffer s)]"
    by (simp add: start_upload_nonempty run_state_changes_buffer run_state_changes_frame)
  with snap runs show ?thesis by blast
qed

theorem snapshot_and_clear_witness:
  "data_buffer ex_late_evening \<noteq> [] \<and> authenticated (api_client ex_late_evening)
   \<and> data_buffer (run [StateChange ex_event3] (start_upload UpdateData ex_late_evening))
       = [ex_reading3]
   \<and> in_flight (run [StateChange ex_event3] (start_upload UpdateData ex_late_evening))
       = [(UpdateData, [ex_reading2])]
   \<and> handled (PostReturns 0 ClientError ex_soon)
   \<and> in_flight (run ex_failed_upload (new_coordinator ex_client)) = []
   \<and> mset (data_buffer (run ex_failed_upload (new_coordinator ex_client)))
       + mset (uploaded (run ex_failed_upload (new_coordinator ex_client)))
       = {#ex_reading1, ex_reading2#}
   \<and> mset (data_buffer (run ex_split_window (new_coordinator ex_client)))
       + mset (uploaded (run ex_split_window (new_coordinator ex_client)))
       = {#ex_reading1, ex_reading2#}"
proof -
  have ne: "data_buffer ex_late_evening \<noteq> []" "data_buffer ex_late_evening = [ex_reading2]"
    "in_flight ex_late_evening = []" "authenticated (api_client ex_late_evening)"
    by (simp_all add: ex_late_evening_def new_coordinator_def ex_client_def client_defs)
  have b1: "buffered_in (map StateChange [ex_event3]) = [ex_reading3]"
    by (simp add: buffered_in_def ex_defs make_reading_def kept_attributes_def isoformat_def)
  have b2: "buffered_in ex_failed_upload = [ex_reading1, ex_reading2]"
    "buffered_in ex_split_window = [ex_reading1, ex_reading2]"
    by (simp_all add: buffered_in_def ex_defs make_reading_def kept_attributes_def isoformat_def)
  have h1: "\<forall>a\<in>set ex_failed_upload. handled a" "handled (PostReturns 0 ClientError ex_soon)"
    by (simp_all add: ex_failed_upload_def json_response_def)
  have h2: "\<forall>a\<in>set ex_split_window. handled a"
    by (simp add: ex_split_window_def ex_ok_def json_response_def response_json_def)
  have f1: "in_flight (run ex_failed_upload (new_coordinator ex_client)) = []"
    by (simp add: ex_defs client_defs coordinator_defs)
  have f2: "in_flight (run ex_split_window (new_coordinator ex_client)) = []"
    by (simp add: ex_defs client_defs coordinator_defs)
  from snapshot_and_clear[of ex_late_evening UpdateData "[ex_event3]"] ne b1
  have "data_buffer (run [StateChange ex_event3] (start_upload UpdateData ex_late_evening))
       = [ex_reading3]
   \<and> in_flight (run [StateChange ex_event3] (start_upload UpdateData ex_late_evening))
       = [(UpdateData, [ex_reading2])]"
    by simp
  moreover from snapshot_and_clear[where tr=ex_failed_upload and c=ex_client] h1 f1 b2
  have "mset (data_buffer (run ex_failed_upload (new_coordinator ex_client)))
       + mset (uploaded (run ex_failed_upload (new_coordinator ex_client)))
       = {#ex_reading1, ex_reading2#}"
    by (simp add: add.commute)
  moreover from snapshot_and_clear[where tr=ex_split_window and c=ex_client] h2 f2 b2
  have "mset (data_buffer (run ex_split_window (new_coordinator ex_client)))
       + mset (uploaded (run ex_split_window (new_coordinator ex_client)))
       = {#ex_reading1, ex_reading2#}"
    by (simp add: add.commute)
  ultimately show ?thesis using ne f1 h1 by simp
qed

text \<open>
  C6, as the claim states it, fails: a reading that arrives while an upload is in
  flight is in the buffer before the failed batch is put back, and the batch is put
  back with \<open>extend\<close>, behind it. Here the first reading is uploaded by an update
  cycle, the second arrives during the call, and the connection breaks two seconds
  after the first reading, before the debounce of its task elapses.
\<close>

theorem failed_batch_not_prepended:
  "map fst (in_flight (run (take 3 ex_failed_upload) (new_coordinator ex_client))) = [UpdateData]
   \<and> map snd (in_flight (run (take 3 ex_failed_upload) (new_coordinator ex_client)))
       = [[ex_reading1]]
   \<and> data_buffer (run (take 3 ex_failed_upload) (new_coordinator ex_client)) = [ex_reading2]
   \<and> upload_task (run ex_failed_upload (new_coordinator ex_client)) = Some Sleeping
   \<and> post_calls (run ex_failed_upload (new_coordinator ex_client))
       = [([ex_reading1], Inl CannotConnect)]
   \<and> data_buffer (run ex_failed_upload (new_coordinator ex_client)) = [ex_reading2, ex_reading1]
   \<and> data_buffer (run ex_failed_upload (new_coordinator ex_client)) \<noteq> [ex_reading1, ex_reading2]"
  by (simp add: ex_defs client_defs coordinator_defs)

text \<open>
  C6, amended. When an upload fails with an API error, the batch is put back at the
  end of the buffer as it is at that moment, whatever ran during the call: behind
  every reading that arrived during the failed call and is still in the buffer. So
  when only state changes ran during the call, the buffer is then the newer readings,
  in arrival order, followed by the batch. A reading that arrived during the call and
  has itself been taken by another upload since is put back by that upload's own
  failure, if it fails. Without credentials the call fails before anything else can
  run, and the buffer is as it was.
\<close>

theorem failed_batch_goes_last:
  "(i < length (in_flight s) \<and> in_flight s ! i = (who, rs)
      \<and> json_response out = Inl e \<and> is_api_error e \<longrightarrow>
        data_buffer (step (PostReturns i out now) s) = data_buffer s @ rs)
   \<and> (data_buffer s \<noteq> [] \<and> authenticated (api_client s)
      \<and> (a = RefreshStart \<or> (a = DebounceElapsed \<and> upload_task s = Some Sleeping))
      \<and> json_response out = Inl e \<and> is_api_error e \<longrightarrow>
        data_buffer (run ([a] @ map StateChange evs @ [PostReturns (length (in_flight s)) out now]) s)
          = buffered_in (map StateChange evs) @ data_buffer s)
   \<and> (data_buffer s \<noteq> [] \<and> \<not> authenticated (api_client s) \<longrightarrow>
        data_buffer (start_upload who s) = data_buffer s
      \<and> post_calls (start_upload who s) = post_calls s @ [(data_buffer s, Inl AuthenticationError)])"
proof -
  have one: "i < length (in_flight s) \<and> in_flight s ! i = (who, rs)
      \<and> json_response out = Inl e \<and> is_api_error e \<longrightarrow>
        data_buffer (step (PostReturns i out now) s) = data_buffer s @ rs"
  proof
    assume a: "i < length (in_flight s) \<and> in_flight s ! i = (who, rs)
      \<and> json_response out = Inl e \<and> is_api_error e"
    then have "finish_upload i out now s =
       after_upload who None
         (s\<lparr>in_flight := take i (in_flight s) @ drop (Suc i) (in_flight s),
            post_calls := post_calls s @ [(rs, Inl e)],
            data_buffer := data_buffer s @ rs\<rparr>)"
      by (intro finish_upload_api_error) simp_all
    then show "data_buffer (step (PostReturns i out now) s) = data_buffer s @ rs"
      by (simp add: after_upload_frame)
  qed
  have two: "data_buffer s \<noteq> [] \<and> authenticated (api_client s)
      \<and> (a = RefreshStart \<or> (a = DebounceElapsed \<and> upload_task s = Some Sleeping))
      \<and> json_response out = Inl e \<and> is_api_error e \<longrightarrow>
        data_buffer (run ([a] @ map StateChange evs @ [PostReturns (length (in_flight s)) out now]) s)
          = buffered_in (map StateChange evs) @ data_buffer s"
  proof
    assume a: "data_buffer s \<noteq> [] \<and> authenticated (api_client s)
      \<and> (a = RefreshStart \<or> (a = DebounceElapsed \<and> upload_task s = Some Sleeping))
      \<and> json_response out = Inl e \<and> is_api_error e"
    obtain caller s0 where st: "step a s = start_upload caller s0"
      and s0: "data_buffer s0 = data_buffer s" "in_flight s0 = in_flight s"
        "api_client s0 = api_client s"
    proof (cases "a = RefreshStart")
      case True
      then show ?thesis using that[of UpdateData s] by simp
    next
      case False
      with a show ?thesis
        using that[of DebouncedUpload "s\<lparr>upload_task := Some Uploading\<rparr>"] by simp
    qed
    let ?s1 = "run (map StateChange evs) (start_upload caller s0)"
    from a s0 have ne: "data_buffer s0 \<noteq> []" and au: "authenticated (api_client s0)"
      by simp_all
    have fl: "in_flight ?s1 = in_flight s @ [(caller, data_buffer s)]"
      using s0 by (simp add: run_state_changes_frame start_upload_nonempty[OF ne au])
    have buf: "data_buffer ?s1 = buffered_in (map StateChange evs)"
      by (simp add: run_state_changes_buffer start_upload_nonempty[OF ne au])
    from fl have i: "length (in_flight s) < length (in_flight ?s1)"
      and ith: "in_flight ?s1 ! length (in_flight s) = (caller, data_buffer s)"
      by simp_all
    from a have err: "json_response out = Inl e" and api: "is_api_error e" by simp_all
    have "data_buffer (finish_upload (length (in_flight s)) out now ?s1)
          = buffered_in (map StateChange evs) @ data_buffer s"
      using buf by (simp add: finish_upload_api_error[OF i ith err api] after_upload_frame)
    then show "data_buffer
        (run ([a] @ map StateChange evs @ [PostReturns (length (in_flight s)) out now]) s)
          = buffered_in (map StateChange evs) @ data_buffer s"
      by (simp add: run_append st)
  qed
  have "data_buffer s \<noteq> [] \<and> \<not> authenticated (api_client s) \<longrightarrow>
        data_buffer (start_upload who s) = data_buffer s
      \<and> post_calls (start_upload who s) = post_calls s @ [(data_buffer s, Inl AuthenticationError)]"
    by (simp add: start_upload_unauthenticated after_upload_frame)
  with one two show ?thesis by blast
qed

theorem failed_batch_goes_last_witness:
  "in_flight (run ex_two_in_flight (new_coordinator ex_client))
     = [(UpdateData, [ex_reading1]), (DebouncedUpload, [ex_reading2])]
   \<and> json_response ClientError = Inl CannotConnect \<and> is_api_error CannotConnect
   \<and> data_buffer (run (ex_two_in_flight @ [PostReturns 0 ClientError ex_day2])
        (new_coordinator ex_client)) = [ex_reading1]
   \<and> data_buffer (run (ex_two_in_flight @
          [PostReturns 0 ClientError ex_day2, PostReturns 0 ClientError ex_day2])
        (new_coordinator ex_client)) = [ex_reading1, ex_reading2]
   \<and> data_buffer (run [RefreshStart, StateChange ex_event3,
                       PostReturns 0 ClientError ex_day2] ex_late_evening)
       = [ex_reading3, ex_reading2]"
proof -
  let ?s = "run ex_two_in_flight (new_coordinator ex_client)"
  let ?s1 = "step (PostReturns 0 ClientError ex_day2) ?s"
  have fl: "in_flight ?s = [(UpdateData, [ex_reading1]), (DebouncedUpload, [ex_reading2])]"
    "data_buffer ?s = []"
    by (simp_all add: ex_defs client_defs coordinator_defs)
  have err: "json_response ClientError = Inl CannotConnect" "is_api_error CannotConnect"
    by (simp_all add: json_response_def)
  from failed_batch_goes_last[where s="?s" and i=0 and who=UpdateData and rs="[ex_reading1]"
      and out=ClientError and e=CannotConnect and now=ex_day2] fl err
  have b1: "data_buffer ?s1 = [ex_reading1]" by simp
  have fl1: "in_flight ?s1 = [(DebouncedUpload, [ex_reading2])]"
    using fl by (simp add: finish_upload_in_flight)
  from failed_batch_goes_last[where s="?s1" and i=0 and who=DebouncedUpload
      and rs="[ex_reading2]" and out=ClientError and e=CannotConnect and now=ex_day2] fl1 err b1
  have b2: "data_buffer (step (PostReturns 0 ClientError ex_day2) ?s1) = [ex_reading1, ex_reading2]"
    by simp
  have ne: "data_buffer ex_late_evening \<noteq> []" "data_buffer ex_late_evening = [ex_reading2]"
    "in_flight ex_late_evening = []" "authenticated (api_client ex_late_evening)"
    by (simp_all add: ex_late_evening_def new_coordinator_def ex_client_def client_defs)
  have ev: "buffered_in (map StateChange [ex_event3]) = [ex_reading3]"
    by (simp add: buffered_in_def ex_defs make_reading_def kept_attributes_def isoformat_def)
  from failed_batch_goes_last[where s=ex_late_evening and a=RefreshStart and out=ClientError
      and e=CannotConnect and evs="[ex_event3]" and now=ex_day2] ne err ev
  have b3: "data_buffer (run [RefreshStart, StateChange ex_event3,
                       PostReturns 0 ClientError ex_day2] ex_late_evening)
       = [ex_reading3, ex_reading2]" by simp
  from fl err b1 b2 b3 show ?thesis by (simp add: run_append)
qed

text \<open>
  C1, as the claim states it, fails: an update cycle uploads the buffer too, whether
  or not an upload task is sleeping. Here two readings arrive three seconds apart in
  the debounce window of one task and an update cycle runs between them; the
  coordinator calls \<open>async_post_readings\<close> twice, each call posts its own request,
  and neither holds both readings.
\<close>

theorem two_uploads_in_one_window:
  "tasks_created (run ex_split_window (new_coordinator ex_client)) = 1
   \<and> upload_task (run (take 4 ex_split_window) (new_coordinator ex_client)) = Some Sleeping
   \<and> post_started (run ex_split_window (new_coordinator ex_client))
       = [[ex_reading1], [ex_reading2]]
   \<and> post_calls (run ex_split_window (new_coordinator ex_client))
       = [([ex_reading1], Inr (JObject [])), ([ex_reading2], Inr (JObject []))]
   \<and> filter is_post_readings (requests (run ex_split_window (new_coordinator ex_client)))
       = [readings_request ex_client [ex_reading1], readings_request ex_client [ex_reading2]]
   \<and> requests (run ex_split_window (new_coordinator ex_client))
       = [readings_request ex_client [ex_reading1], status_request ex_client,
          readings_request ex_client [ex_reading2]]"
  by (simp add: ex_defs client_defs coordinator_defs is_post_readings_def)

text \<open>
  C1, amended. Take a coordinator in a state it can reach, with no upload task pending
  or running, and any run of steps in which no update cycle starts (and no debounce
  elapses) and at least one state change is buffered; outcomes of requests issued
  earlier may arrive in between. The first buffered state change creates the one
  upload task, and no call of \<open>async_post_readings\<close> is made during the run. When the
  debounce then elapses the task makes exactly one call of \<open>async_post_readings\<close>,
  with the whole buffer, which holds all the readings buffered during the run, in some
  order, beside what else is in it; with credentials that call posts exactly one
  request. A state change that arrives while an upload task is pending or running
  never creates a second task.
\<close>

theorem one_upload_per_window:
  assumes "s = run pre (new_coordinator c)"
    and "upload_task s = None \<or> upload_task s = Some Finished"
    and "\<forall>a\<in>set tr. \<not> starts_upload a"
    and "buffered_in tr \<noteq> []"
  shows "(let s1 = run tr s; batch = data_buffer s1; s2 = step DebounceElapsed s1
          in tasks_created s1 = tasks_created s + 1
           \<and> upload_task s1 = Some Sleeping
           \<and> post_started s1 = post_started s
           \<and> filter is_post_readings (requests s1) = filter is_post_readings (requests s)
           \<and> mset (buffered_in tr) \<subseteq># mset batch
           \<and> post_started s2 = post_started s @ [batch]
           \<and> tasks_created s2 = tasks_created s + 1
           \<and> filter is_post_readings (requests s2)
               = filter is_post_readings (requests s)
                 @ (if authenticated (api_client s)
                    then [readings_request (api_client s) batch] else []))
       \<and> (\<forall>s' t ev. upload_task s' = Some t \<and> \<not> is_done t \<longrightarrow>
             upload_task (handle_state_change ev s') = upload_task s'
           \<and> tasks_created (handle_state_change ev s') = tasks_created s')"
proof -
  let ?s1 = "run tr s"
  let ?batch = "data_buffer ?s1"
  let ?w = "?s1\<lparr>upload_task := Some Uploading\<rparr>"
  from task_inv_reachable[of pre c] assms(1,2) have none: "task_uploads s = []"
    by auto
  note fr = quiet_run_frame[OF assms(3) none]
  note tk = quiet_run_idle[OF assms(3) none assms(2,4)]
  from fr have sub: "mset (data_buffer s) + mset (buffered_in tr) \<subseteq># mset ?batch" by simp
  have sub': "mset (buffered_in tr) \<subseteq># mset ?batch"
    by (rule subset_mset.order_trans[OF _ sub]) simp
  with assms(4) have ne: "?batch \<noteq> []" by auto
  from tk have st: "step DebounceElapsed ?s1 = start_upload DebouncedUpload ?w" by simp
  have ps: "post_started (start_upload DebouncedUpload ?w) = post_started s @ [?batch]"
    using ne fr by (simp add: start_upload_post_started)
  have tc: "tasks_created (start_upload DebouncedUpload ?w) = tasks_created s + 1"
    using tk ne
    by (cases "authenticated (api_client ?w)")
       (simp_all add: start_upload_nonempty start_upload_unauthenticated after_upload_frame)
  have rq: "filter is_post_readings (requests (start_upload DebouncedUpload ?w))
      = filter is_post_readings (requests s)
        @ (if authenticated (api_client s) then [readings_request (api_client s) ?batch] else [])"
  proof (cases "authenticated (api_client s)")
    case True
    with fr have "authenticated (api_client ?w)" by simp
    with ne fr True show ?thesis
      by (simp add: start_upload_nonempty is_post_readings_def readings_request_def)
  next
    case False
    with fr have "\<not> authenticated (api_client ?w)" by simp
    with ne fr False show ?thesis
      by (simp add: start_upload_unauthenticated after_upload_requests)
  qed
  have guard: "\<And>s' t ev. upload_task s' = Some t \<Longrightarrow> \<not> is_done t \<Longrightarrow>
          upload_task (handle_state_change ev s') = upload_task s'
        \<and> tasks_created (handle_state_change ev s') = tasks_created s'"
    by (simp add: handle_state_change_pending)
  from tk fr sub' ps tc rq guard show ?thesis
    by (simp add: Let_def st)
qed

theorem one_upload_per_window_witness:
  "upload_task (run ex_before_window (new_coordinator ex_client)) = Some Finished
   \<and> in_flight (run ex_before_window (new_coordinator ex_client)) = [(UpdateData, [ex_reading1])]
   \<and> buffered_in ex_window = [ex_reading3, ex_reading4]
   \<and> tasks_created (run ex_before_window (new_coordinator ex_client)) = 1
   \<and> tasks_created (run (ex_before_window @ ex_window @ [DebounceElapsed])
        (new_coordinator ex_client)) = 2
   \<and> post_started (run (ex_before_window @ ex_window @ [DebounceElapsed])
        (new_coordinator ex_client))
       = [[ex_reading1], [ex_reading3, ex_reading1, ex_reading4]]
   \<and> filter is_post_readings (requests (run (ex_before_window @ ex_window @ [DebounceElapsed])
        (new_coordinator ex_client)))
       = [readings_request ex_client [ex_reading1],
          readings_request ex_client [ex_reading3, ex_reading1, ex_reading4]]"
proof -
  let ?s = "run ex_before_window (new_coordinator ex_client)"
  have s: "upload_task ?s = Some Finished" "in_flight ?s = [(UpdateData, [ex_reading1])]"
    "tasks_created ?s = 1" "post_started ?s = [[ex_reading1]]" "api_client ?s = ex_client"
    "requests ?s = [readings_request ex_client [ex_reading1]]"
    by (simp_all add: ex_defs client_defs coordinator_defs)
  have idle: "upload_task ?s = None \<or> upload_task ?s = Some Finished" by (simp add: s)
  have q: "\<forall>a\<in>set ex_window. \<not> starts_upload a" by (simp add: ex_window_def)
  have b: "buffered_in ex_window = [ex_reading3, ex_reading4]"
    by (simp add: buffered_in_def ex_defs make_reading_def kept_attributes_def isoformat_def)
  then have bn: "buffered_in ex_window \<noteq> []" by simp
  have buf: "data_buffer (run ex_window ?s) = [ex_reading3, ex_reading1, ex_reading4]"
    by (simp add: ex_defs client_defs coordinator_defs)
  have au: "authenticated ex_client" by (simp add: ex_defs client_defs)
  have pr: "is_post_readings (readings_request ex_client [ex_reading1])"
    by (simp add: is_post_readings_def readings_request_def)
  from one_upload_per_window[OF refl idle q bn] s b buf au pr
  show ?thesis by (simp add: Let_def run_append del: step.simps)
qed

text \<open>
  C5. When an update cycle builds a snapshot and the stored counter date is not the
  current date, the counter is set to (today, 0) first and the snapshot reports
  \<open>readings_today = 0\<close>, whatever the counter held. This is so for the cycle run as a
  whole and for the step that receives the status while other steps interleave.
\<close>

theorem rollover_resets_counter:
  "(async_update_data net now_up now1 now2 s = (Inr snapshot, s')
      \<and> readings_today_date s \<noteq> Some (date_iso now1) \<longrightarrow>
        map_of snapshot ''readings_today'' = Some (PInt 0)
      \<and> readings_today s' = 0
      \<and> readings_today_date s' = Some (date_iso now1)
      \<and> data s' = Some snapshot)
   \<and> (awaiting_status s \<noteq> 0
      \<and> fst (async_get_status (api_client s) (\<lambda>rq. out)) = Inr (JObject status)
      \<and> readings_today_date s \<noteq> Some (date_iso now1) \<longrightarrow>
        readings_today (finish_status out now1 now2 s) = 0
      \<and> readings_today_date (finish_status out now1 now2 s) = Some (date_iso now1)
      \<and> map_option (\<lambda>d. map_of d ''readings_today'') (data (finish_status out now1 now2 s))
          = Some (Some (PInt 0)))"
proof -
  have whole: "async_update_data net now_up now1 now2 s = (Inr snapshot, s')
      \<and> readings_today_date s \<noteq> Some (date_iso now1) \<longrightarrow>
        map_of snapshot ''readings_today'' = Some (PInt 0)
      \<and> readings_today s' = 0
      \<and> readings_today_date s' = Some (date_iso now1)
      \<and> data s' = Some snapshot"
  proof
    assume a: "async_update_data net now_up now1 now2 s = (Inr snapshot, s')
      \<and> readings_today_date s \<noteq> Some (date_iso now1)"
    from async_update_data_success[of net now_up now1 now2 s snapshot s'] a
    obtain st s2 where
      bs: "build_snapshot st now1 now2 s2 = (Inr snapshot, s'\<lparr>data := data s2\<rparr>)"
      and d: "readings_today_date s2 = readings_today_date s" and dt: "data s' = Some snapshot"
      by blast
    from a d have "readings_today_date s2 \<noteq> Some (date_iso now1)" by simp
    from build_snapshot_rollover[OF this, of st now2]
      build_snapshot_fields(3)[OF bs] bs dt
    show "map_of snapshot ''readings_today'' = Some (PInt 0)
      \<and> readings_today s' = 0
      \<and> readings_today_date s' = Some (date_iso now1)
      \<and> data s' = Some snapshot" by simp
  qed
  have "awaiting_status s \<noteq> 0
      \<and> fst (async_get_status (api_client s) (\<lambda>rq. out)) = Inr (JObject status)
      \<and> readings_today_date s \<noteq> Some (date_iso now1) \<longrightarrow>
        readings_today (finish_status out now1 now2 s) = 0
      \<and> readings_today_date (finish_status out now1 now2 s) = Some (date_iso now1)
      \<and> map_option (\<lambda>d. map_of d ''readings_today'') (data (finish_status out now1 now2 s))
          = Some (Some (PInt 0))"
    by (simp add: finish_status_def async_get_status_result build_snapshot_def Let_def
        split: if_splits)
  with whole show ?thesis by blast
qed

theorem rollover_resets_counter_witness:
  "readings_today ex_late_evening = 5
   \<and> readings_today_date ex_late_evening \<noteq> Some (date_iso ex_day2)
   \<and> map_option (\<lambda>d. map_of d ''readings_today'')
        (data (snd (async_update_data (\<lambda>rq. ex_ok) ex_day2 ex_day2 ex_day2 ex_late_evening)))
       = Some (Some (PInt 0))
   \<and> readings_today_date (snd (async_update_data (\<lambda>rq. ex_ok) ex_day2 ex_day2 ex_day2 ex_late_evening))
       = Some ''2024-01-02''"
proof -
  obtain snapshot s' where
    run: "async_update_data (\<lambda>rq. ex_ok) ex_day2 ex_day2 ex_day2 ex_late_evening = (Inr snapshot, s')"
    by (simp add: ex_defs client_defs coordinator_defs)
  have old: "readings_today ex_late_evening = 5"
    "readings_today_date ex_late_evening \<noteq> Some (date_iso ex_day2)"
    by (simp_all add: ex_defs new_coordinator_def)
  from rollover_resets_counter[of "\<lambda>rq. ex_ok" ex_day2 ex_day2 ex_day2 ex_late_evening snapshot s']
    run old
  have "map_of snapshot ''readings_today'' = Some (PInt 0) \<and> data s' = Some snapshot
      \<and> readings_today_date s' = Some (date_iso ex_day2)" by simp
  with run old show ?thesis by (simp add: ex_day2_def)
qed

text \<open>
  C9. A snapshot returned by an update cycle has \<open>connected = True\<close> and
  \<open>sync_status = "synced"\<close>, and becomes the coordinator's data; a cycle that fails
  leaves the data as it was. So over any run of steps from a fresh coordinator the
  data is absent, and the sensor reads \<open>"unknown"\<close>, or it is a snapshot with
  \<open>sync_status = "synced"\<close>, and the sensor reads that: never \<open>"syncing"\<close>, never
  \<open>"error"\<close>.
\<close>

theorem snapshots_are_synced:
  "(async_update_data net now_up now1 now2 s = (Inr snapshot, s') \<longrightarrow>
       map_of snapshot ''connected'' = Some (PBool True)
     \<and> map_of snapshot ''sync_status'' = Some (PStr ''synced'')
     \<and> data s' = Some snapshot
     \<and> native_value s' = PStr ''synced'')
   \<and> (async_update_data net now_up now1 now2 s = (Inl err, s') \<longrightarrow> data s' = data s)
   \<and> native_value (new_coordinator c) = PStr ''unknown''
   \<and> (case data (run tr (new_coordinator c)) of
         None \<Rightarrow> native_value (run tr (new_coordinator c)) = PStr ''unknown''
       | Some d \<Rightarrow>
           map_of d ''connected'' = Some (PBool True)
         \<and> map_of d ''sync_status'' = Some (PStr ''synced'')
         \<and> native_value (run tr (new_coordinator c)) = PStr ''synced'')
   \<and> native_value (run tr (new_coordinator c)) \<noteq> PStr ''syncing''
   \<and> native_value (run tr (new_coordinator c)) \<noteq> PStr ''error''"
proof -
  have ok: "async_update_data net now_up now1 now2 s = (Inr snapshot, s') \<longrightarrow>
       map_of snapshot ''connected'' = Some (PBool True)
     \<and> map_of snapshot ''sync_status'' = Some (PStr ''synced'')
     \<and> data s' = Some snapshot
     \<and> native_value s' = PStr ''synced''"
  proof
    assume a: "async_update_data net now_up now1 now2 s = (Inr snapshot, s')"
    from async_update_data_success[OF a] obtain status s2 where
      bs: "build_snapshot status now1 now2 s2 = (Inr snapshot, s'\<lparr>data := data s2\<rparr>)"
      and dt: "data s' = Some snapshot" by blast
    from build_snapshot_fields(1,2)[OF bs]
    have "map_of snapshot ''connected'' = Some (PBool True)"
      "map_of snapshot ''sync_status'' = Some (PStr ''synced'')" by simp_all
    with dt show "map_of snapshot ''connected'' = Some (PBool True)
     \<and> map_of snapshot ''sync_status'' = Some (PStr ''synced'')
     \<and> data s' = Some snapshot
     \<and> native_value s' = PStr ''synced''"
      by (simp add: native_value_def get_default_def)
  qed
  have inv: "\<forall>d. data (run tr (new_coordinator c)) = Some d \<longrightarrow>
     map_of d ''connected'' = Some (PBool True) \<and> map_of d ''sync_status'' = Some (PStr ''synced'')"
    by (rule synced_run) (simp add: new_coordinator_def)
  have run_case: "(case data (run tr (new_coordinator c)) of
         None \<Rightarrow> native_value (run tr (new_coordinator c)) = PStr ''unknown''
       | Some d \<Rightarrow>
           map_of d ''connected'' = Some (PBool True)
         \<and> map_of d ''sync_status'' = Some (PStr ''synced'')
         \<and> native_value (run tr (new_coordinator c)) = PStr ''synced'')"
    using inv by (simp add: native_value_def get_default_def split: option.splits)
  then have never: "native_value (run tr (new_coordinator c)) \<noteq> PStr ''syncing''"
    "native_value (run tr (new_coordinator c)) \<noteq> PStr ''error''"
    by (auto split: option.splits)
  have fresh: "native_value (new_coordinator c) = PStr ''unknown''"
    by (simp add: native_value_def new_coordinator_def)
  have ko: "async_update_data net now_up now1 now2 s = (Inl err, s') \<longrightarrow> data s' = data s"
    by (auto dest: async_update_data_failure)
  from ok ko fresh run_case never show ?thesis by simp
qed

theorem snapshots_are_synced_witness:
  "native_value (snd (async_update_data (\<lambda>rq. ex_ok) ex_day2 ex_day2 ex_day2 ex_late_evening))
     = PStr ''synced''
   \<and> fst (async_update_data (\<lambda>rq. Response 401 Unreadable) ex_day2 ex_day2 ex_day2 ex_late_evening)
       = Inl (UpdateFailed ''Authentication failed'')
   \<and> native_value
        (snd (async_update_data (\<lambda>rq. Response 401 Unreadable) ex_day2 ex_day2 ex_day2 ex_late_evening))
       = PStr ''unknown''
   \<and> native_value (run ex_over_midnight (new_coordinator ex_client)) = PStr ''synced''"
proof -
  obtain snapshot s' where
    ok: "async_update_data (\<lambda>rq. ex_ok) ex_day2 ex_day2 ex_day2 ex_late_evening = (Inr snapshot, s')"
    by (simp add: ex_defs client_defs coordinator_defs)
  obtain s'' where
    ko: "async_update_data (\<lambda>rq. Response 401 Unreadable) ex_day2 ex_day2 ex_day2 ex_late_evening
          = (Inl (UpdateFailed ''Authentication failed''), s'')"
    by (simp add: ex_defs client_defs coordinator_defs)
  have none: "data ex_late_evening = None" by (simp add: ex_defs new_coordinator_def)
  have some: "data (run ex_over_midnight (new_coordinator ex_client)) \<noteq> None"
    by (simp add: ex_defs client_defs coordinator_defs)
  from snapshots_are_synced[of "\<lambda>rq. ex_ok" ex_day2 ex_day2 ex_day2 ex_late_evening snapshot s'] ok
  have "native_value (snd (async_update_data (\<lambda>rq. ex_ok) ex_day2 ex_day2 ex_day2 ex_late_evening))
     = PStr ''synced''" by simp
  moreover from snapshots_are_synced[of "\<lambda>rq. Response 401 Unreadable" ex_day2 ex_day2 ex_day2
      ex_late_evening _ s'' "UpdateFailed ''Authentication failed''"] ko none
  have "native_value
        (snd (async_update_data (\<lambda>rq. Response 401 Unreadable) ex_day2 ex_day2 ex_day2 ex_late_evening))
       = PStr ''unknown''" by (simp add: native_value_def)
  moreover from snapshots_are_synced[where tr=ex_over_midnight and c=ex_client] some
  have "native_value (run ex_over_midnight (new_coordinator ex_client)) = PStr ''synced''"
    by (auto split: option.splits)
  ultimately show ?thesis using ko by simp
qed

text \<open>
  C4 does not hold of the code. The upload adds to \<open>readings_today\<close> without looking
  at the date, and the update cycle compares the stored date with today's only after
  its own upload has run. So in the first cycle of a day the batch the cycle has just
  uploaded is counted and wiped at once: the snapshot reports 0 although the upload
  returned on that day. The sensor that shows the counter is documented as "the number of
  readings uploaded today".
\<close>

theorem upload_of_the_cycle_not_counted:
  assumes "data_buffer s \<noteq> []"
    and "fst (async_post_readings (api_client s) (data_buffer s) net) = Inr resp"
    and "date_iso now_up = date_iso now1"
    and "readings_today_date s \<noteq> Some (date_iso now1)"
    and "async_update_data net now_up now1 now2 s = (Inr snapshot, s')"
  shows "post_calls s' = post_calls s @ [(data_buffer s, Inr resp)]
       \<and> map_option date_iso (last_upload s') = Some (date_iso now1)
       \<and> map_of snapshot ''readings_today'' = Some (PInt 0)
       \<and> readings_today s' = 0"
proof -
  from async_update_data_success[OF assms(5)] obtain status s2 where
    bs: "build_snapshot status now1 now2 s2 = (Inr snapshot, s'\<lparr>data := data s2\<rparr>)"
    and d: "readings_today_date s2 = readings_today_date s"
    and pc: "post_calls s2 = post_calls (snd (async_upload_buffered_data net now_up s))"
    and lu: "last_upload s2 = last_upload (snd (async_upload_buffered_data net now_up s))"
    by blast
  from assms(4) d have ro: "readings_today_date s2 \<noteq> Some (date_iso now1)" by simp
  from bs build_snapshot_frame(2,3)[of status now1 now2 s2]
  have "post_calls s' = post_calls s2" "last_upload s' = last_upload s2" by simp_all
  with pc lu upload_success[OF assms(1,2), of now_up] assms(3)
  have "post_calls s' = post_calls s @ [(data_buffer s, Inr resp)]"
    "map_option date_iso (last_upload s') = Some (date_iso now1)" by simp_all
  moreover from build_snapshot_rollover[OF ro, of status now2]
    build_snapshot_fields(3)[OF bs] bs
  have "map_of snapshot ''readings_today'' = Some (PInt 0)" "readings_today s' = 0"
    by simp_all
  ultimately show ?thesis by simp
qed

theorem upload_of_the_cycle_not_counted_witness:
  "data_buffer ex_late_evening = [ex_reading2]
   \<and> readings_today ex_late_evening = 5
   \<and> readings_today_date ex_late_evening = Some ''2024-01-01''
   \<and> post_calls (snd (async_update_data (\<lambda>rq. ex_ok) ex_day2 ex_day2 ex_day2 ex_late_evening))
       = [([ex_reading2], Inr (JObject []))]
   \<and> last_upload (snd (async_update_data (\<lambda>rq. ex_ok) ex_day2 ex_day2 ex_day2 ex_late_evening))
       = Some ex_day2
   \<and> map_option (\<lambda>d. map_of d ''readings_today'')
        (data (snd (async_update_data (\<lambda>rq. ex_ok) ex_day2 ex_day2 ex_day2 ex_late_evening)))
       = Some (Some (PInt 0))
   \<and> map_option (\<lambda>d. map_of d ''readings_today'')
        (data (run ex_over_midnight (new_coordinator ex_client))) = Some (Some (PInt 0))
   \<and> post_calls (run ex_over_midnight (new_coordinator ex_client)) = [([ex_reading2], Inr (JObject []))]
   \<and> last_upload (run ex_over_midnight (new_coordinator ex_client)) = Some ex_day2"
proof -
  obtain snapshot s' where
    ok: "async_update_data (\<lambda>rq. ex_ok) ex_day2 ex_day2 ex_day2 ex_late_evening = (Inr snapshot, s')"
    and dt: "data s' = Some snapshot" and lu: "last_upload s' = Some ex_day2"
    by (simp add: ex_defs client_defs coordinator_defs)
  have st: "data_buffer ex_late_evening = [ex_reading2]" "readings_today ex_late_evening = 5"
    "readings_today_date ex_late_evening = Some ''2024-01-01''"
    "post_calls ex_late_evening = []" "api_client ex_late_evening = ex_client"
    by (simp_all add: ex_defs new_coordinator_def)
  have ne: "data_buffer ex_late_evening \<noteq> []" by (simp add: st)
  have up: "fst (async_post_readings (api_client ex_late_evening) (data_buffer ex_late_evening)
      (\<lambda>rq. ex_ok)) = Inr (JObject [])"
    by (simp add: st) (simp add: ex_defs client_defs)
  have ro: "readings_today_date ex_late_evening \<noteq> Some (date_iso ex_day2)"
    by (simp add: st ex_day2_def)
  have mid: "map_option (\<lambda>d. map_of d ''readings_today'')
        (data (run ex_over_midnight (new_coordinator ex_client))) = Some (Some (PInt 0))
   \<and> post_calls (run ex_over_midnight (new_coordinator ex_client)) = [([ex_reading2], Inr (JObject []))]
   \<and> last_upload (run ex_over_midnight (new_coordinator ex_client)) = Some ex_day2"
    by (simp add: ex_defs client_defs coordinator_defs)
  from upload_of_the_cycle_not_counted[OF ne up refl ro ok] st dt lu ok mid
  show ?thesis by simp
qed

end
